theory Spec2Isabelle
  imports Main "HOL-Library.Word" "HOL-Library.Signed_Division"
begin

section \<open>flake: run a command in parallel until it fails\<close>

text \<open>
  A shallow embedding of \<^verbatim>\<open>flake.go\<close>. The operating system (child processes, the
  file system, the clock) is not part of the program: what it answers is an argument of
  the model, and the theorems hold for every such answer.
\<close>

subsection \<open>Formatting: \<^verbatim>\<open>strconv.FormatInt\<close>, \<^verbatim>\<open>%d\<close>, \<^verbatim>\<open>%q\<close>\<close>

type_synonym int64 = "64 word"
type_synonym byte = char

text \<open>The digit table of \<^verbatim>\<open>strconv\<close>.\<close>

definition digit :: "nat \<Rightarrow> char" where
  "digit d = ''0123456789abcdef'' ! d"

text \<open>The decimal digits of a natural number, most significant first.\<close>

fun digits :: "nat \<Rightarrow> string" where
  "digits n = (if n < 10 then [digit n] else digits (n div 10) @ [digit (n mod 10)])"

declare digits.simps [simp del]

text \<open>\<^verbatim>\<open>strconv.FormatInt(i, 10)\<close>, which is also what \<^verbatim>\<open>%d\<close> prints.\<close>

definition FormatInt :: "int \<Rightarrow> string" where
  "FormatInt i = (if i < 0 then CHR ''-'' # digits (nat (- i)) else digits (nat i))"

text \<open>
  \<^verbatim>\<open>strconv.Quote\<close> on one byte of an ASCII string: the quote and the backslash are
  escaped, the control characters that have a letter escape use it, the other control
  characters are written \<^verbatim>\<open>\xNN\<close>, and a printable character stands for itself. A byte
  from 128 on is written \<^verbatim>\<open>\xNN\<close>, as Go does for a byte that is not valid UTF-8; a
  multi-byte UTF-8 sequence is outside this model (signal names and file names of the
  theorems below are ASCII).
\<close>

definition quote_byte :: "char \<Rightarrow> string" where
  "quote_byte c =
     (if c = CHR 0x22 then [CHR 0x5C, CHR 0x22]
      else if c = CHR 0x5C then [CHR 0x5C, CHR 0x5C]
      else if c = CHR 0x07 then [CHR 0x5C, CHR ''a'']
      else if c = CHR 0x08 then [CHR 0x5C, CHR ''b'']
      else if c = CHR 0x0C then [CHR 0x5C, CHR ''f'']
      else if c = CHR 0x0A then [CHR 0x5C, CHR ''n'']
      else if c = CHR 0x0D then [CHR 0x5C, CHR ''r'']
      else if c = CHR 0x09 then [CHR 0x5C, CHR ''t'']
      else if c = CHR 0x0B then [CHR 0x5C, CHR ''v'']
      else if (of_char c :: nat) < 32 \<or> 127 \<le> (of_char c :: nat)
        then [CHR 0x5C, CHR ''x'', digit (of_char c div 16), digit (of_char c mod 16)]
      else [c])"

definition Quote :: "string \<Rightarrow> string" where
  "Quote s = CHR 0x22 # concat (map quote_byte s) @ [CHR 0x22]"

subsection \<open>Process states and errors\<close>

text \<open>
  \<^verbatim>\<open>syscall.WaitStatus\<close> of a process that \<^verbatim>\<open>Wait\<close> has reaped: it exited with a
  code, or a signal terminated it.
\<close>

datatype WaitStatus = Exited int | Killed int

fun Signaled :: "WaitStatus \<Rightarrow> bool" where
  "Signaled (Exited c) = False"
| "Signaled (Killed s) = True"

fun Signal :: "WaitStatus \<Rightarrow> int" where
  "Signal (Exited c) = - 1"
| "Signal (Killed s) = s"

fun ExitStatus :: "WaitStatus \<Rightarrow> int" where
  "ExitStatus (Exited c) = c"
| "ExitStatus (Killed s) = - 1"

text \<open>A Go slice header: the backing array, the length and the capacity.\<close>

record slice =
  ptr :: nat
  len :: nat
  cap :: nat

record runError =
  state :: WaitStatus
  output' :: slice

text \<open>
  The dynamic types an \<^verbatim>\<open>error\<close> value has in this program; \<^verbatim>\<open>nil\<close> is \<open>None\<close> of
  \<open>error option\<close>.
\<close>

datatype error =
    RunError runError
  | ExitError WaitStatus
  | PathError string string string
  | OtherError string

text \<open>
  \<^verbatim>\<open>runError.Error\<close>. The name of a signal (\<^verbatim>\<open>syscall.Signal.String\<close>, a table of
  the platform) is the parameter \<open>signame\<close>; \<^verbatim>\<open>%q\<close> of a \<^verbatim>\<open>Stringer\<close> quotes the
  string it returns.
\<close>

definition Error :: "(int \<Rightarrow> string) \<Rightarrow> runError \<Rightarrow> string" where
  "Error signame re =
     (let status = state re in
      if Signaled status then ''got signal '' @ Quote (signame (Signal status))
      else ''status '' @ FormatInt (ExitStatus status))"

text \<open>
  \<^verbatim>\<open>err.Error()\<close> for the other dynamic types: a \<^verbatim>\<open>*fs.PathError\<close> prints
  \<^verbatim>\<open>op path: cause\<close>, an \<^verbatim>\<open>*exec.ExitError\<close> prints its process state.
\<close>

fun error_string :: "(int \<Rightarrow> string) \<Rightarrow> error \<Rightarrow> string" where
  "error_string signame (RunError re) = Error signame re"
| "error_string signame (ExitError st) =
     (if Signaled st then ''signal: '' @ signame (Signal st)
      else ''exit status '' @ FormatInt (ExitStatus st))"
| "error_string signame (PathError oper path msg) = oper @ '' '' @ path @ '': '' @ msg"
| "error_string signame (OtherError msg) = msg"

subsection \<open>The heap: backing arrays, \<^verbatim>\<open>bytes.Buffer\<close>, \<^verbatim>\<open>slices.Clone\<close>\<close>

text \<open>
  A slice shares its backing array with every other slice made from it, so the arrays
  live in a store: \<open>arrays h a\<close> is the content of array \<open>a\<close> over its whole capacity,
  \<open>fresh h\<close> the next array to allocate. Array 0 is never allocated: it stands for the
  array of a nil slice.
\<close>

record heap =
  arrays :: "nat \<Rightarrow> byte list"
  fresh :: nat

definition nil_slice :: slice where
  "nil_slice = \<lparr>ptr = 0, len = 0, cap = 0\<rparr>"

definition empty_heap :: heap where
  "empty_heap = \<lparr>arrays = (\<lambda>a. []), fresh = 1\<rparr>"

text \<open>The bytes a slice denotes in a heap.\<close>

definition bytes_of :: "heap \<Rightarrow> slice \<Rightarrow> byte list" where
  "bytes_of h s = take (len s) (arrays h (ptr s))"

text \<open>
  \<^verbatim>\<open>bytes.Buffer\<close>: the field \<^verbatim>\<open>buf\<close>. The read offset \<^verbatim>\<open>off\<close> stays 0, since
  nothing in the program reads from the buffer, and is left out.
\<close>

record Buffer =
  buf :: slice

definition zero_Buffer :: Buffer where
  "zero_Buffer = \<lparr>buf = nil_slice\<rparr>"

text \<open>\<^verbatim>\<open>Reset\<close> is \<^verbatim>\<open>b.buf = b.buf[:0]\<close>: the array and the capacity are kept.\<close>

definition Reset :: "Buffer \<Rightarrow> Buffer" where
  "Reset b = b\<lparr>buf := (buf b)\<lparr>len := 0\<rparr>\<rparr>"

text \<open>
  The capacity \<^verbatim>\<open>grow\<close> asks for when \<open>n\<close> more bytes do not fit: 64 for the first
  small write into a nil buffer, otherwise the larger of what is needed and twice the
  old capacity (the runtime may round it up further, which no theorem here depends on).
\<close>

definition grow_cap :: "nat \<Rightarrow> nat \<Rightarrow> nat \<Rightarrow> nat" where
  "grow_cap c m n = (if c = 0 \<and> n \<le> 64 then 64 else max (m + n) (2 * c))"

text \<open>
  \<^verbatim>\<open>Write\<close>: in place when the bytes fit in the capacity, otherwise into a newly
  allocated array that first receives the old content.
\<close>

definition Write :: "byte list \<Rightarrow> heap \<times> Buffer \<Rightarrow> heap \<times> Buffer" where
  "Write p hb =
     (let h = fst hb; b = snd hb; s = buf b; m = len s; n = length p; old = arrays h (ptr s) in
      if m + n \<le> cap s then
        (h\<lparr>arrays := (arrays h)(ptr s := take m old @ p @ drop (m + n) old)\<rparr>,
         b\<lparr>buf := s\<lparr>len := m + n\<rparr>\<rparr>)
      else
        (let c = grow_cap (cap s) m n; a = fresh h in
         (h\<lparr>arrays := (arrays h)(a := take m old @ p @ replicate (c - (m + n)) (CHR 0x00)),
            fresh := Suc a\<rparr>,
          b\<lparr>buf := \<lparr>ptr = a, len = m + n, cap = c\<rparr>\<rparr>)))"

text \<open>\<^verbatim>\<open>Bytes\<close> returns the buffer's own slice, not a copy.\<close>

definition Bytes :: "Buffer \<Rightarrow> slice" where
  "Bytes b = buf b"

text \<open>
  \<^verbatim>\<open>slices.Clone\<close> is \<^verbatim>\<open>append(s[:0:0], s...)\<close>: a nonempty slice is copied into a
  new array; an empty one becomes a slice of capacity 0, through which nothing can be
  read or written.
\<close>

definition Clone :: "heap \<Rightarrow> slice \<Rightarrow> heap \<times> slice" where
  "Clone h s =
     (if len s = 0 then (h, s\<lparr>len := 0, cap := 0\<rparr>)
      else (let a = fresh h in
            (h\<lparr>arrays := (arrays h)(a := take (len s) (arrays h (ptr s))), fresh := Suc a\<rparr>,
             \<lparr>ptr = a, len = len s, cap = len s\<rparr>)))"

subsection \<open>The file system\<close>

text \<open>
  The paths that exist, the paths whose creation the system refuses and with what
  message (permissions, a missing parent), and the paths \<^verbatim>\<open>os.RemoveAll\<close> fails on.
\<close>

record filesys =
  paths :: "string set"
  mkdir_err :: "string \<Rightarrow> string option"
  sticky :: "string set"

definition os_Mkdir :: "filesys \<Rightarrow> string \<Rightarrow> error + filesys" where
  "os_Mkdir fs p =
     (case mkdir_err fs p of
        Some msg \<Rightarrow> Inl (PathError ''mkdir'' p msg)
      | None \<Rightarrow>
          if p \<in> paths fs then Inl (PathError ''mkdir'' p ''file exists'')
          else Inr (fs\<lparr>paths := insert p (paths fs)\<rparr>))"

text \<open>\<open>within d q\<close>: the path \<open>q\<close> is \<open>d\<close> or lies below it.\<close>

definition within :: "string \<Rightarrow> string \<Rightarrow> bool" where
  "within d q = (q = d \<or> take (Suc (length d)) q = d @ ''/'')"

text \<open>
  \<^verbatim>\<open>os.RemoveAll\<close> removes the path and everything below it. Both callers discard the
  error it returns, so the model returns the file system only; what a failing removal
  leaves behind is not modelled further.
\<close>

definition os_RemoveAll :: "filesys \<Rightarrow> string \<Rightarrow> filesys" where
  "os_RemoveAll fs d =
     (if d \<in> sticky fs then fs else fs\<lparr>paths := Set.filter (\<lambda>q. \<not> within d q) (paths fs)\<rparr>)"

subsection \<open>\<^verbatim>\<open>filepath.Join\<close> and \<^verbatim>\<open>filepath.Clean\<close> (Unix)\<close>

text \<open>
  The backtracking of a \<^verbatim>\<open>..\<close> element in \<^verbatim>\<open>Clean\<close>: from the write index \<open>w\<close> down
  to the last separator, not below \<open>dotdot\<close>.
\<close>

function backtrack :: "string \<Rightarrow> nat \<Rightarrow> nat \<Rightarrow> nat" where
  "backtrack out dotdot w =
     (if w > dotdot \<and> out ! w \<noteq> CHR ''/'' then backtrack out dotdot (w - 1) else w)"
  by pat_completeness auto
termination
  by (relation "measure (\<lambda>(out, dotdot, w). w)") auto

declare backtrack.simps [simp del]

text \<open>
  The loop of \<^verbatim>\<open>Clean\<close> over the rest of the path, with the output written so far
  (the write index of the source is the length of \<open>out\<close>): a separator and a \<^verbatim>\<open>.\<close>
  element are skipped, a \<^verbatim>\<open>..\<close> element removes the last element written if there is
  one, and any other element is copied after a separator.
\<close>

function clean_loop :: "bool \<Rightarrow> string \<Rightarrow> nat \<Rightarrow> string \<Rightarrow> string" where
  "clean_loop rooted out dotdot [] = out"
| "clean_loop rooted out dotdot (c # r) =
     (if c = CHR ''/'' then clean_loop rooted out dotdot r
      else if c = CHR ''.'' \<and> (r = [] \<or> hd r = CHR ''/'') then clean_loop rooted out dotdot r
      else if c = CHR ''.'' \<and> r \<noteq> [] \<and> hd r = CHR ''.'' \<and> (tl r = [] \<or> hd (tl r) = CHR ''/'') then
        (if length out > dotdot then
           clean_loop rooted (take (backtrack out dotdot (length out - 1)) out) dotdot (tl r)
         else if \<not> rooted then
           clean_loop rooted ((if out \<noteq> [] then out @ ''/'' else out) @ ''..'')
             (length ((if out \<noteq> [] then out @ ''/'' else out) @ ''..'')) (tl r)
         else clean_loop rooted out dotdot (tl r))
      else
        clean_loop rooted
          ((if (rooted \<and> length out \<noteq> 1) \<or> (\<not> rooted \<and> length out \<noteq> 0) then out @ ''/'' else out)
            @ takeWhile (\<lambda>x. x \<noteq> CHR ''/'') (c # r))
          dotdot (dropWhile (\<lambda>x. x \<noteq> CHR ''/'') (c # r)))"
  by pat_completeness auto
termination
proof (relation "measure (\<lambda>(rooted, out, dotdot, rest). length rest)")
  show "wf (measure (\<lambda>(rooted, out, dotdot, rest). length rest))"
    by simp
qed (auto simp: less_Suc_eq_le length_dropWhile_le intro: le_trans [OF length_dropWhile_le])

declare clean_loop.simps [simp del]

definition Clean :: "string \<Rightarrow> string" where
  "Clean path =
     (if path = [] then ''.''
      else (let rooted = (hd path = CHR ''/'');
                res = (if rooted then clean_loop True ''/'' 1 (tl path)
                       else clean_loop False [] 0 path)
            in if res = [] then ''.'' else res))"

text \<open>\<^verbatim>\<open>strings.Join\<close> with the separator \<^verbatim>\<open>/\<close>.\<close>

fun join_sep :: "string list \<Rightarrow> string" where
  "join_sep [] = []"
| "join_sep [e] = e"
| "join_sep (e # es) = e @ ''/'' @ join_sep es"

text \<open>\<^verbatim>\<open>filepath.Join\<close>: the elements from the first nonempty one on, joined and cleaned.\<close>

definition Join :: "string list \<Rightarrow> string" where
  "Join elem =
     (case dropWhile (\<lambda>e. e = []) elem of [] \<Rightarrow> [] | e # es \<Rightarrow> Clean (join_sep (e # es)))"

subsection \<open>The child process\<close>

text \<open>
  What \<^verbatim>\<open>cmd.Run\<close> meets: the process does not start, or it starts and \<^verbatim>\<open>Wait\<close>
  reaps it with a wait status; \<^verbatim>\<open>Wait\<close> may also report an error of its own (the
  context's, once cancelled) when the process ended well.
\<close>

datatype ending = StartFailed string | Waited WaitStatus "string option"

text \<open>
  One invocation as the operating system decides it: how it ends, the chunks it writes
  to its standard output and standard error (both are the same buffer, in the order
  they arrive), and what it does to the file system.
\<close>

record child =
  ending :: ending
  writes :: "byte list list"
  touches :: "filesys \<Rightarrow> filesys"

text \<open>
  The error \<^verbatim>\<open>cmd.Run\<close> returns, as os/exec documents it: the start error; an
  \<^verbatim>\<open>*exec.ExitError\<close> with the process state when the process did not exit with
  status 0; otherwise the error \<^verbatim>\<open>Wait\<close> reports, if any.
\<close>

fun Run_error :: "ending \<Rightarrow> error option" where
  "Run_error (StartFailed msg) = Some (OtherError msg)"
| "Run_error (Waited st late) =
     (if st = Exited 0 then map_option OtherError late else Some (ExitError st))"

text \<open>
  What the program does to the outside, in order: a call of \<^verbatim>\<open>os.Mkdir\<close>, a call of
  \<^verbatim>\<open>cmd.Run\<close> with the command and \<^verbatim>\<open>cmd.Env\<close>, a call of \<^verbatim>\<open>os.RemoveAll\<close>.
\<close>

datatype event =
    EvMkdir string
  | EvRun "string list" "string list option"
  | EvRemoveAll string

text \<open>
  The variables of an environment list: an entry is \<^verbatim>\<open>key=value\<close>, and of two entries
  with one key the child sees the last, as os/exec documents for \<^verbatim>\<open>Cmd.Env\<close>.
\<close>

definition entry_key :: "string \<Rightarrow> string" where
  "entry_key kv = takeWhile (\<lambda>x. x \<noteq> CHR ''='') kv"

definition entry_value :: "string \<Rightarrow> string" where
  "entry_value kv = drop 1 (dropWhile (\<lambda>x. x \<noteq> CHR ''='') kv)"

fun getenv :: "string list \<Rightarrow> string \<Rightarrow> string option" where
  "getenv [] k = None"
| "getenv (kv # env) k =
     (case getenv env k of
        Some v \<Rightarrow> Some v
      | None \<Rightarrow> if CHR ''='' \<in> set kv \<and> entry_key kv = k then Some (entry_value kv) else None)"

text \<open>
  The environment of the child: the parent's when \<^verbatim>\<open>cmd.Env\<close> is nil, \<^verbatim>\<open>cmd.Env\<close>
  otherwise.
\<close>

definition child_env :: "string list \<Rightarrow> string list option \<Rightarrow> string list" where
  "child_env parent env = (case env of None \<Rightarrow> parent | Some e \<Rightarrow> e)"

subsection \<open>The worker\<close>

record worker =
  cmd :: "string list"
  tmpdir :: string
  outBuf :: Buffer

text \<open>
  Everything outside the worker that \<^verbatim>\<open>run\<close> reads or changes: the file system, the
  heap, the environment of the program itself (\<^verbatim>\<open>os.Environ\<close>), and the record of what
  was done.
\<close>

record world =
  files :: filesys
  mem :: heap
  environ :: "string list"
  trace :: "event list"

text \<open>A call returns an error value, or panics.\<close>

datatype result = Panicked | Returned "error option"

text \<open>The copying of the child's output into the buffer, one \<^verbatim>\<open>Write\<close> per chunk.\<close>

definition capture :: "byte list list \<Rightarrow> heap \<times> Buffer \<Rightarrow> heap \<times> Buffer" where
  "capture chunks hb = fold Write chunks hb"

text \<open>
  \<^verbatim>\<open>cmd.Run\<close> with the context \<open>ctx\<close> (true once cancelled): a start that fails
  writes nothing, and a cancelled context fails the start before any process exists
  (with the context's error, unless the command was already in error); otherwise the
  child runs, its output is captured and the file system is as it leaves it.
\<close>

definition cmd_Run ::
  "bool \<Rightarrow> child \<Rightarrow> string list \<Rightarrow> string list option \<Rightarrow> world \<Rightarrow> Buffer
     \<Rightarrow> error option \<times> Buffer \<times> world" where
  "cmd_Run ctx c argv env wd b =
     (let wd1 = wd\<lparr>trace := trace wd @ [EvRun argv env]\<rparr> in
      case ending c of
        StartFailed msg \<Rightarrow> (Some (OtherError msg), b, wd1)
      | Waited st late \<Rightarrow>
          if ctx then (Some (OtherError ''context canceled''), b, wd1)
          else
            (let hb = capture (writes c) (mem wd1, b) in
             (Run_error (ending c), snd hb,
              wd1\<lparr>files := touches c (files wd1), mem := fst hb\<rparr>)))"

text \<open>
  The classification at the end of \<^verbatim>\<open>run\<close>: an \<^verbatim>\<open>*exec.ExitError\<close> becomes a
  \<^verbatim>\<open>*runError\<close> with the process state and a clone of the buffer's bytes; nil and any
  other error are returned as they are.
\<close>

definition classify :: "error option \<Rightarrow> heap \<Rightarrow> Buffer \<Rightarrow> error option \<times> heap" where
  "classify err h b =
     (case err of
        Some (ExitError st) \<Rightarrow>
          (let hs = Clone h (Bytes b) in
           (Some (RunError \<lparr>state = st, output' = snd hs\<rparr>), fst hs))
      | _ \<Rightarrow> (err, h))"

text \<open>The scratch directory of the invocation with a sequence id.\<close>

definition scratch :: "string \<Rightarrow> int64 \<Rightarrow> string" where
  "scratch root ident = Join [root, FormatInt (sint ident)]"

text \<open>
  \<^verbatim>\<open>worker.run\<close>. \<^verbatim>\<open>w.cmd[0]\<close> panics on an empty command; the buffer is reset; with
  a scratch root the directory is made (a failure returns at once), the deferred
  \<^verbatim>\<open>os.RemoveAll\<close> runs when the function returns, and \<^verbatim>\<open>FLAKEDIR\<close> is appended to
  the environment; without one, \<^verbatim>\<open>cmd.Env\<close> stays nil.
\<close>

definition run :: "bool \<Rightarrow> child \<Rightarrow> world \<Rightarrow> worker \<Rightarrow> int64 \<Rightarrow> result \<times> worker \<times> world" where
  "run ctx c wd w ident =
     (if cmd w = [] then (Panicked, w, wd)
      else
        (let b0 = Reset (outBuf w) in
         if tmpdir w \<noteq> [] then
           (let d = scratch (tmpdir w) ident;
                wd1 = wd\<lparr>trace := trace wd @ [EvMkdir d]\<rparr> in
            case os_Mkdir (files wd) d of
              Inl e \<Rightarrow> (Returned (Some e), w\<lparr>outBuf := b0\<rparr>, wd1)
            | Inr fs1 \<Rightarrow>
                (let r = cmd_Run ctx c (cmd w) (Some (environ wd @ [''FLAKEDIR='' @ d]))
                           (wd1\<lparr>files := fs1\<rparr>) b0;
                     b1 = fst (snd r); wd2 = snd (snd r);
                     k = classify (fst r) (mem wd2) b1 in
                 (Returned (fst k), w\<lparr>outBuf := b1\<rparr>,
                  wd2\<lparr>mem := snd k, files := os_RemoveAll (files wd2) d,
                      trace := trace wd2 @ [EvRemoveAll d]\<rparr>)))
         else
           (let r = cmd_Run ctx c (cmd w) None wd b0;
                b1 = fst (snd r); wd2 = snd (snd r);
                k = classify (fst r) (mem wd2) b1 in
            (Returned (fst k), w\<lparr>outBuf := b1\<rparr>, wd2\<lparr>mem := snd k\<rparr>))))"

subsection \<open>The program: \<^verbatim>\<open>main\<close>\<close>

definition nl :: string where
  "nl = [CHR 0x0A]"

text \<open>\<^verbatim>\<open>log.Printf\<close> with no flags: the text, ended by a newline if it has none.\<close>

definition logline :: "string \<Rightarrow> string" where
  "logline t = (if t = [] \<or> last t \<noteq> CHR 0x0A then t @ nl else t)"

text \<open>\<^verbatim>\<open>%q\<close> of a \<^verbatim>\<open>[]string\<close>: the quoted elements between brackets.\<close>

fun spaced :: "string list \<Rightarrow> string" where
  "spaced [] = []"
| "spaced [e] = e"
| "spaced (e # es) = e @ '' '' @ spaced es"

definition quote_list :: "string list \<Rightarrow> string" where
  "quote_list xs = ''['' @ spaced (map Quote xs) @ '']''"

text \<open>
  What the platform and the libraries supply: the names of the signals, the text of a
  \<^verbatim>\<open>time.Duration\<close> (\<^verbatim>\<open>Duration.String\<close>), what \<^verbatim>\<open>flag.PrintDefaults\<close> prints,
  and whether standard output is a terminal.
\<close>

record platform =
  signame :: "int \<Rightarrow> string"
  duration_String :: "int64 \<Rightarrow> string"
  PrintDefaults :: string
  stdoutIsTTY :: bool

text \<open>
  The command line after \<^verbatim>\<open>flag.Parse\<close>: \<^verbatim>\<open>-tmpdir\<close>, \<^verbatim>\<open>-p\<close> (a Go \<^verbatim>\<open>int\<close>, 64 bits
  wide here) and the remaining arguments.
\<close>

record flags =
  tmpdir_flag :: string
  parallelism :: int64
  Args :: "string list"

definition usage :: "platform \<Rightarrow> string" where
  "usage pf =
     ''usage:'' @ nl @ nl @ ''  flake [flags...] <command> [args...]'' @ nl @ nl
       @ ''where the flags are:'' @ nl @ nl
       @ PrintDefaults pf
       @ nl @ ''Flake runs the provided command until it fails by exiting with a nonzero status.'' @ nl
       @ ''It only prints the output of the failed run.'' @ nl"

text \<open>
  The quotient of two \<^verbatim>\<open>int64\<close> in Go: it truncates towards zero, and the one quotient
  that does not fit wraps around. The caller excludes a zero divisor.
\<close>

definition quo :: "int64 \<Rightarrow> int64 \<Rightarrow> int64" where
  "quo a b = word_of_int (sint a sdiv sint b)"

text \<open>
  The closure \<^verbatim>\<open>avg\<close>, with \<^verbatim>\<open>time.Since(start)\<close> as the argument \<open>since\<close>: the
  product and the quotient are those of \<^verbatim>\<open>int64\<close>, wrapping and truncating.
\<close>

definition avg :: "platform \<Rightarrow> int64 \<Rightarrow> int64 \<Rightarrow> int64 \<Rightarrow> string" where
  "avg pf p since n =
     (if n = 0 then [] else '' (avg = '' @ duration_String pf (quo (p * since) n) @ '')'')"

text \<open>
  Where a worker goroutine stands in its loop: before the first \<^verbatim>\<open>select\<close>, before
  \<^verbatim>\<open>atomic.AddInt64\<close>, before \<^verbatim>\<open>w.run\<close> with the id it claimed, in the second
  \<^verbatim>\<open>select\<close> with the error to publish, or returned.
\<close>

datatype pc = AtCheck | AtClaim | AtRun int64 | AtPublish "error option" | Exited'

record lane =
  wk :: worker
  at :: pc

text \<open>
  Where \<^verbatim>\<open>main\<close> stands: in \<^verbatim>\<open>sigLoop\<close>, before \<^verbatim>\<open>cancel()\<close>, in \<^verbatim>\<open>wg.Wait()\<close>, or
  exited with a status.
\<close>

datatype main_pc = InLoop | Broke | Waiting | Finished nat

text \<open>
  The state of the program: the variables of \<^verbatim>\<open>main\<close> that the goroutines share
  (\<^verbatim>\<open>ctx\<close>, \<^verbatim>\<open>id\<close>), its own (\<^verbatim>\<open>n\<close>, \<^verbatim>\<open>err\<close>, the scratch root), one lane per
  goroutine, the two output streams and the world. \<open>claimed\<close> is a history variable:
  the ids returned by \<^verbatim>\<open>atomic.AddInt64\<close> so far, with the lane that got each, in the
  order of the calls.
\<close>

record system =
  main_ctx :: bool
  main_id :: int64
  main_n :: int64
  main_err :: "error option"
  main_tmpdir :: string
  main_at :: main_pc
  lanes :: "lane list"
  stdout :: string
  stderr :: string
  outside :: world
  claimed :: "(nat \<times> int64) list"

text \<open>
  \<^verbatim>\<open>os.MkdirTemp(dir, "flake-")\<close>, with the random suffix it settles on as an
  argument.
\<close>

definition os_MkdirTemp :: "filesys \<Rightarrow> string \<Rightarrow> string \<Rightarrow> error + (string \<times> filesys)" where
  "os_MkdirTemp fs dir rnd =
     (let name = (if dir \<noteq> [] \<and> last dir = CHR ''/'' then dir else dir @ ''/'') @ ''flake-'' @ rnd in
      case mkdir_err fs name of
        Some msg \<Rightarrow> Inl (PathError ''mkdir'' name msg)
      | None \<Rightarrow>
          if name \<in> paths fs then Inl (PathError ''mkdirtemp'' name ''file exists'')
          else Inr (name, fs\<lparr>paths := insert name (paths fs)\<rparr>))"

definition halted :: "nat \<Rightarrow> string \<Rightarrow> world \<Rightarrow> system" where
  "halted status msg w =
     \<lparr>main_ctx = False, main_id = 0, main_n = 0, main_err = None, main_tmpdir = [],
      main_at = Finished status, lanes = [], stdout = [], stderr = msg, outside = w, claimed = []\<rparr>"

definition spawned :: "flags \<Rightarrow> string \<Rightarrow> world \<Rightarrow> system" where
  "spawned fl root w =
     \<lparr>main_ctx = False, main_id = 0, main_n = 0, main_err = None, main_tmpdir = root,
      main_at = InLoop,
      lanes = replicate (nat (sint (parallelism fl)))
                \<lparr>wk = \<lparr>cmd = Args fl, tmpdir = root, outBuf = zero_Buffer\<rparr>, at = AtCheck\<rparr>,
      stdout = [], stderr = [], outside = w, claimed = []\<rparr>"

text \<open>
  \<^verbatim>\<open>main\<close> up to \<^verbatim>\<open>sigLoop\<close>: \<^verbatim>\<open>log.Fatalln\<close> exits with status 1, a missing command
  prints the usage and exits with status 2, and otherwise one goroutine per unit of
  parallelism starts at the top of its loop.
\<close>

definition main_start :: "platform \<Rightarrow> flags \<Rightarrow> string \<Rightarrow> world \<Rightarrow> system" where
  "main_start pf fl rnd w =
     (if parallelism fl <s 1 then halted 1 (''-p must be positive'' @ nl) w
      else if length (Args fl) < 1 then halted 2 (usage pf) w
      else if tmpdir_flag fl \<noteq> [] then
        (case os_MkdirTemp (files w) (tmpdir_flag fl) rnd of
           Inl e \<Rightarrow> halted 1 (''Cannot create tmpdir: '' @ error_string (signame pf) e @ nl) w
         | Inr (name, fs) \<Rightarrow> spawned fl name (w\<lparr>files := fs\<rparr>))
      else spawned fl [] w)"

text \<open>
  One step of the program. A label names who moves and what the outside answers:
  a goroutine at its first \<^verbatim>\<open>select\<close>, at \<^verbatim>\<open>atomic.AddInt64\<close>, through \<^verbatim>\<open>w.run\<close>
  (with the child the system gives it), sending its result to \<^verbatim>\<open>main\<close>, or taking
  \<^verbatim>\<open>ctx.Done()\<close> instead; in \<^verbatim>\<open>main\<close> a tick (with \<^verbatim>\<open>time.Since(start)\<close>), a signal,
  \<^verbatim>\<open>cancel()\<close>, and the return of \<^verbatim>\<open>wg.Wait()\<close> followed by the report.
\<close>

datatype label =
    Check nat
  | Claim nat
  | Run nat child
  | Send nat
  | Abandon nat
  | Tick int64
  | Interrupt
  | Cancel
  | Wait int64

definition running :: "system \<Rightarrow> bool" where
  "running s = (case main_at s of Finished status \<Rightarrow> False | _ \<Rightarrow> True)"

definition set_at :: "nat \<Rightarrow> pc \<Rightarrow> system \<Rightarrow> system" where
  "set_at k p s = s\<lparr>lanes := (lanes s)[k := (lanes s ! k)\<lparr>at := p\<rparr>]\<rparr>"

text \<open>
  The report after \<^verbatim>\<open>wg.Wait()\<close>. Every branch returns from \<^verbatim>\<open>main\<close>: the deferred
  removal of the scratch root runs and the exit status is 0.
\<close>

definition report :: "platform \<Rightarrow> flags \<Rightarrow> int64 \<Rightarrow> system \<Rightarrow> system" where
  "report pf fl since s =
     (let out1 = stdout s @ (if stdoutIsTTY pf then [CHR 0x0D] else []);
          log1 =
            (case main_err s of
               None \<Rightarrow>
                 logline (''Quit after '' @ FormatInt (sint (main_n s)) @ '' iteration(s)''
                            @ avg pf (parallelism fl) since (main_n s))
             | Some e \<Rightarrow>
                 logline (''Failed after '' @ FormatInt (sint (main_n s))
                            @ '' successful iteration(s):'')
                 @ (case e of
                      RunError re \<Rightarrow>
                        logline (''Command failed: '' @ Error (signame pf) re @ '':'' @ nl
                                   @ bytes_of (mem (outside s)) (output' re))
                    | _ \<Rightarrow>
                        logline (''Error running '' @ quote_list (Args fl) @ '': ''
                                   @ error_string (signame pf) e)));
          w1 = (if main_tmpdir s \<noteq> []
                then (outside s)\<lparr>files := os_RemoveAll (files (outside s)) (main_tmpdir s),
                                  trace := trace (outside s) @ [EvRemoveAll (main_tmpdir s)]\<rparr>
                else outside s)
      in s\<lparr>stdout := out1, stderr := stderr s @ log1, outside := w1, main_at := Finished 0\<rparr>)"

text \<open>
  A step that cannot be taken in a state is \<open>None\<close>: a goroutine is elsewhere in its
  loop, a send finds \<^verbatim>\<open>main\<close> no longer receiving, \<^verbatim>\<open>ctx.Done()\<close> is not closed,
  \<^verbatim>\<open>wg.Wait()\<close> still has a goroutine to wait for.
\<close>

fun step :: "platform \<Rightarrow> flags \<Rightarrow> label \<Rightarrow> system \<Rightarrow> system option" where
  "step pf fl (Check k) s =
     (if running s \<and> k < length (lanes s) \<and> at (lanes s ! k) = AtCheck
      then Some (set_at k (if main_ctx s then Exited' else AtClaim) s)
      else None)"
| "step pf fl (Claim k) s =
     (if running s \<and> k < length (lanes s) \<and> at (lanes s ! k) = AtClaim
      then Some (set_at k (AtRun (main_id s + 1))
                   (s\<lparr>main_id := main_id s + 1, claimed := claimed s @ [(k, main_id s + 1)]\<rparr>))
      else None)"
| "step pf fl (Run k c) s =
     (if running s \<and> k < length (lanes s) then
        (case at (lanes s ! k) of
           AtRun ident \<Rightarrow>
             (let r = run (main_ctx s) c (outside s) (wk (lanes s ! k)) ident in
              case fst r of
                Panicked \<Rightarrow> Some (s\<lparr>main_at := Finished 2\<rparr>)
              | Returned e \<Rightarrow>
                  Some (s\<lparr>lanes := (lanes s)[k := \<lparr>wk = fst (snd r), at = AtPublish e\<rparr>],
                          outside := snd (snd r)\<rparr>))
         | _ \<Rightarrow> None)
      else None)"
| "step pf fl (Send k) s =
     (if main_at s = InLoop \<and> k < length (lanes s) then
        (case at (lanes s ! k) of
           AtPublish e \<Rightarrow>
             (case e of
                None \<Rightarrow> Some (set_at k AtCheck (s\<lparr>main_err := None, main_n := main_n s + 1\<rparr>))
              | Some x \<Rightarrow> Some (set_at k Exited' (s\<lparr>main_err := Some x, main_at := Broke\<rparr>)))
         | _ \<Rightarrow> None)
      else None)"
| "step pf fl (Abandon k) s =
     (if running s \<and> main_ctx s \<and> k < length (lanes s) then
        (case at (lanes s ! k) of
           AtPublish e \<Rightarrow> Some (set_at k Exited' s)
         | _ \<Rightarrow> None)
      else None)"
| "step pf fl (Tick since) s =
     (if main_at s = InLoop then
        Some (s\<lparr>stdout := stdout s @
                (if stdoutIsTTY pf
                 then [CHR 0x0D] @ FormatInt (sint (main_n s)) @ '' iterations''
                        @ avg pf (parallelism fl) since (main_n s) @ ''...''
                 else FormatInt (sint (main_n s)) @ '' iterations''
                        @ avg pf (parallelism fl) since (main_n s) @ ''...'' @ nl)\<rparr>)
      else None)"
| "step pf fl Interrupt s =
     (if main_at s = InLoop then Some (s\<lparr>main_at := Broke\<rparr>) else None)"
| "step pf fl Cancel s =
     (if main_at s = Broke then Some (s\<lparr>main_ctx := True, main_at := Waiting\<rparr>) else None)"
| "step pf fl (Wait since) s =
     (if main_at s = Waiting \<and> (\<forall>l \<in> set (lanes s). at l = Exited')
      then Some (report pf fl since s)
      else None)"

text \<open>A run of the program: the steps of a list of labels, one after the other.\<close>

fun exec :: "platform \<Rightarrow> flags \<Rightarrow> label list \<Rightarrow> system \<Rightarrow> system option" where
  "exec pf fl [] s = Some s"
| "exec pf fl (l # ls) s = (case step pf fl l s of None \<Rightarrow> None | Some s' \<Rightarrow> exec pf fl ls s')"

text \<open>The goroutine a label belongs to, if any.\<close>

fun actor :: "label \<Rightarrow> nat option" where
  "actor (Check k) = Some k"
| "actor (Claim k) = Some k"
| "actor (Run k c) = Some k"
| "actor (Send k) = Some k"
| "actor (Abandon k) = Some k"
| "actor l = None"

definition exit_status :: "system \<Rightarrow> nat option" where
  "exit_status s = (case main_at s of Finished status \<Rightarrow> Some status | _ \<Rightarrow> None)"

subsection \<open>Invariants of a run, and inputs for the examples\<close>

text \<open>Every lane runs the command of the command line under the scratch root of the run.\<close>

definition lanes_ok :: "flags \<Rightarrow> system \<Rightarrow> bool" where
  "lanes_ok fl s =
     (\<forall>j < length (lanes s). cmd (wk (lanes s ! j)) = Args fl \<and> tmpdir (wk (lanes s ! j)) = main_tmpdir s)"

text \<open>Once started with a command, the program only ever exits with status 0.\<close>

definition exits_zero :: "flags \<Rightarrow> system \<Rightarrow> bool" where
  "exits_zero fl s = (lanes_ok fl s \<and> Args fl \<noteq> [] \<and> (\<forall>st. main_at s = Finished st \<longrightarrow> st = 0))"

text \<open>The context is cancelled only after \<^verbatim>\<open>main\<close> has left its loop.\<close>

definition cancelled_late :: "system \<Rightarrow> bool" where
  "cancelled_late s = (main_ctx s \<longrightarrow> main_at s \<noteq> InLoop \<and> main_at s \<noteq> Broke)"

text \<open>The ids handed out so far are the numbers from 1 to the value of the counter.\<close>

definition ids_counted :: "system \<Rightarrow> bool" where
  "ids_counted s =
     (main_id s = of_nat (length (claimed s)) \<and>
      map snd (claimed s) = map of_nat [1..<Suc (length (claimed s))])"

abbreviation plain_platform :: platform where
  "plain_platform \<equiv>
     \<lparr>signame = (\<lambda>sg. []), duration_String = (\<lambda>d. FormatInt (sint d)), PrintDefaults = [],
      stdoutIsTTY = False\<rparr>"

abbreviation empty_world :: world where
  "empty_world \<equiv>
     \<lparr>files = \<lparr>paths = {}, mkdir_err = (\<lambda>p. None), sticky = {}\<rparr>, mem = empty_heap,
      environ = [], trace = []\<rparr>"

abbreviation failing_child :: child where
  "failing_child \<equiv> \<lparr>ending = Waited (Exited 1) None, writes = [''oops''], touches = (\<lambda>f. f)\<rparr>"

abbreviation one_lane :: flags where
  "one_lane \<equiv> \<lparr>tmpdir_flag = [], parallelism = 1, Args = [''false'']\<rparr>"

abbreviation two_lanes :: flags where
  "two_lanes \<equiv> \<lparr>tmpdir_flag = [], parallelism = 2, Args = [''false'']\<rparr>"

section \<open>Properties\<close>

subsection \<open>What \<^verbatim>\<open>run\<close> returns\<close>

lemma cmd_Run_fst:
  "fst (cmd_Run ctx c argv env w b) =
     (case ending c of
        StartFailed msg \<Rightarrow> Some (OtherError msg)
      | Waited st late \<Rightarrow> if ctx then Some (OtherError ''context canceled'') else Run_error (ending c))"
  by (simp add: cmd_Run_def Let_def split: ending.splits)

lemma classify_fst:
  "fst (classify e h b) =
     (case e of
        Some (ExitError st) \<Rightarrow> Some (RunError \<lparr>state = st, output' = snd (Clone h (Bytes b))\<rparr>)
      | _ \<Rightarrow> e)"
  by (simp add: classify_def Let_def split: option.splits error.splits)

lemma run_mkdir_failed:
  "cmd w \<noteq> [] \<Longrightarrow> tmpdir w \<noteq> [] \<Longrightarrow> os_Mkdir (files x) (scratch (tmpdir w) ident) = Inl e \<Longrightarrow>
   run ctx c x w ident =
     (Returned (Some e), w\<lparr>outBuf := Reset (outBuf w)\<rparr>,
      x\<lparr>trace := trace x @ [EvMkdir (scratch (tmpdir w) ident)]\<rparr>)"
  by (simp add: run_def Let_def)

lemma run_fst:
  "cmd w \<noteq> [] \<Longrightarrow> tmpdir w = [] \<or> os_Mkdir (files x) (scratch (tmpdir w) ident) = Inr fs1 \<Longrightarrow>
   fst (run ctx c x w ident) =
     Returned (case ending c of
        StartFailed msg \<Rightarrow> Some (OtherError msg)
      | Waited st late \<Rightarrow>
          if ctx then Some (OtherError ''context canceled'')
          else if st = Exited 0 then map_option OtherError late
          else Some (RunError \<lparr>state = st,
                 output' = snd (Clone (mem (snd (snd (cmd_Run ctx c (cmd w)
                    (if tmpdir w = [] then None else Some (environ x @ [''FLAKEDIR='' @ scratch (tmpdir w) ident]))
                    (if tmpdir w = [] then x else x\<lparr>trace := trace x @ [EvMkdir (scratch (tmpdir w) ident)], files := fs1\<rparr>)
                    (Reset (outBuf w))))))
                   (Bytes (fst (snd (cmd_Run ctx c (cmd w)
                    (if tmpdir w = [] then None else Some (environ x @ [''FLAKEDIR='' @ scratch (tmpdir w) ident]))
                    (if tmpdir w = [] then x else x\<lparr>trace := trace x @ [EvMkdir (scratch (tmpdir w) ident)], files := fs1\<rparr>)
                    (Reset (outBuf w)))))))\<rparr>))"
  apply (cases "tmpdir w = []")
   apply (simp_all add: run_def Let_def classify_fst cmd_Run_fst split: ending.splits option.splits)
  done

lemma Error_Exited: "Error sn \<lparr>state = Exited code, output' = sl\<rparr> = ''status '' @ FormatInt code"
  by (simp add: Error_def)

lemma Error_Killed: "Error sn \<lparr>state = Killed sg, output' = sl\<rparr> = ''got signal '' @ Quote (sn sg)"
  by (simp add: Error_def)

text \<open>
  C2 (as amended). For a nonempty command: when the scratch directory cannot be made,
  \<^verbatim>\<open>run\<close> returns the error of \<^verbatim>\<open>os.Mkdir\<close> as it is. Otherwise a start that fails
  returns its error as it is; a context already cancelled returns the context's error;
  exit status 0 returns nil, unless \<^verbatim>\<open>Wait\<close> reports an error of its own, which is
  returned; and any other ending returns a \<^verbatim>\<open>*runError\<close> with the process state, whose
  description is \<^verbatim>\<open>status <code>\<close> for an exit code and \<^verbatim>\<open>got signal\<close> followed by
  the signal's name as \<^verbatim>\<open>%q\<close> quotes it for a signal. The errors that are not a
  \<^verbatim>\<open>*runError\<close> have no output field.
\<close>

theorem run_classification:
  "cmd w \<noteq> [] \<Longrightarrow>
   (tmpdir w \<noteq> [] \<and> os_Mkdir (files x) (scratch (tmpdir w) ident) = Inl e \<longrightarrow>
      fst (run ctx c x w ident) = Returned (Some e)) \<and>
   ((tmpdir w = [] \<or> (\<exists>fs1. os_Mkdir (files x) (scratch (tmpdir w) ident) = Inr fs1)) \<longrightarrow>
      (case ending c of
         StartFailed msg \<Rightarrow> fst (run ctx c x w ident) = Returned (Some (OtherError msg))
       | Waited st late \<Rightarrow>
           if ctx then fst (run ctx c x w ident) = Returned (Some (OtherError ''context canceled''))
           else if st = Exited 0 then fst (run ctx c x w ident) = Returned (map_option OtherError late)
           else (\<exists>re. fst (run ctx c x w ident) = Returned (Some (RunError re)) \<and> state re = st \<and>
                   Error sn re =
                     (case st of
                        Exited code \<Rightarrow> ''status '' @ FormatInt code
                      | Killed sg \<Rightarrow> ''got signal '' @ Quote (sn sg)))))"
proof (intro conjI impI)
  assume "cmd w \<noteq> []" "tmpdir w \<noteq> [] \<and> os_Mkdir (files x) (scratch (tmpdir w) ident) = Inl e"
  then show "fst (run ctx c x w ident) = Returned (Some e)"
    by (simp add: run_mkdir_failed)
next
  assume a: "cmd w \<noteq> []"
    and "tmpdir w = [] \<or> (\<exists>fs1. os_Mkdir (files x) (scratch (tmpdir w) ident) = Inr fs1)"
  then obtain fs1 where b: "tmpdir w = [] \<or> os_Mkdir (files x) (scratch (tmpdir w) ident) = Inr fs1"
    by blast
  show "case ending c of
         StartFailed msg \<Rightarrow> fst (run ctx c x w ident) = Returned (Some (OtherError msg))
       | Waited st late \<Rightarrow>
           if ctx then fst (run ctx c x w ident) = Returned (Some (OtherError ''context canceled''))
           else if st = Exited 0 then fst (run ctx c x w ident) = Returned (map_option OtherError late)
           else (\<exists>re. fst (run ctx c x w ident) = Returned (Some (RunError re)) \<and> state re = st \<and>
                   Error sn re =
                     (case st of
                        Exited code \<Rightarrow> ''status '' @ FormatInt code
                      | Killed sg \<Rightarrow> ''got signal '' @ Quote (sn sg)))"
    by (simp add: run_fst [OF a b] Error_Exited Error_Killed split: ending.splits WaitStatus.splits)
qed

theorem run_classification_witness:
  "(\<exists>re. fst (run False \<lparr>ending = Waited (Exited 3) None, writes = [''x''], touches = (\<lambda>f. f)\<rparr>
             \<lparr>files = \<lparr>paths = {}, mkdir_err = (\<lambda>p. None), sticky = {}\<rparr>, mem = empty_heap,
              environ = [], trace = []\<rparr>
             \<lparr>cmd = [''false''], tmpdir = [], outBuf = zero_Buffer\<rparr> 1)
          = Returned (Some (RunError re)) \<and> state re = Exited 3 \<and> Error (\<lambda>sg. []) re = ''status 3'')
   \<and> fst (run False \<lparr>ending = Waited (Exited 0) None, writes = [], touches = (\<lambda>f. f)\<rparr>
             \<lparr>files = \<lparr>paths = {''/t/1''}, mkdir_err = (\<lambda>p. None), sticky = {}\<rparr>, mem = empty_heap,
              environ = [], trace = []\<rparr>
             \<lparr>cmd = [''true''], tmpdir = ''/t'', outBuf = zero_Buffer\<rparr> 1)
       = Returned (Some (PathError ''mkdir'' ''/t/1'' ''file exists''))"
proof -
  have three: "FormatInt 3 = ''3''"
    by code_simp
  have dir: "scratch ''/t'' 1 = ''/t/1''"
    by code_simp
  have a: "\<exists>re. fst (run False \<lparr>ending = Waited (Exited 3) None, writes = [''x''], touches = (\<lambda>f. f)\<rparr>
             \<lparr>files = \<lparr>paths = {}, mkdir_err = (\<lambda>p. None), sticky = {}\<rparr>, mem = empty_heap,
              environ = [], trace = []\<rparr>
             \<lparr>cmd = [''false''], tmpdir = [], outBuf = zero_Buffer\<rparr> 1)
          = Returned (Some (RunError re)) \<and> state re = Exited 3 \<and> Error (\<lambda>sg. []) re = ''status 3''"
    using run_classification [of "\<lparr>cmd = [''false''], tmpdir = [], outBuf = zero_Buffer\<rparr>"
        "\<lparr>files = \<lparr>paths = {}, mkdir_err = (\<lambda>p. None), sticky = {}\<rparr>, mem = empty_heap,
              environ = [], trace = []\<rparr>" 1 "OtherError []" False
        "\<lparr>ending = Waited (Exited 3) None, writes = [''x''], touches = (\<lambda>f. f)\<rparr>" "\<lambda>sg. []"]
    by (simp add: three)
  have b: "fst (run False \<lparr>ending = Waited (Exited 0) None, writes = [], touches = (\<lambda>f. f)\<rparr>
             \<lparr>files = \<lparr>paths = {''/t/1''}, mkdir_err = (\<lambda>p. None), sticky = {}\<rparr>, mem = empty_heap,
              environ = [], trace = []\<rparr>
             \<lparr>cmd = [''true''], tmpdir = ''/t'', outBuf = zero_Buffer\<rparr> 1)
       = Returned (Some (PathError ''mkdir'' ''/t/1'' ''file exists''))"
    using run_classification [of "\<lparr>cmd = [''true''], tmpdir = ''/t'', outBuf = zero_Buffer\<rparr>"
        "\<lparr>files = \<lparr>paths = {''/t/1''}, mkdir_err = (\<lambda>p. None), sticky = {}\<rparr>, mem = empty_heap,
              environ = [], trace = []\<rparr>" 1 "PathError ''mkdir'' ''/t/1'' ''file exists''" False
        "\<lparr>ending = Waited (Exited 0) None, writes = [], touches = (\<lambda>f. f)\<rparr>" "\<lambda>sg. []"]
    by (simp add: dir os_Mkdir_def)
  from a b show ?thesis
    by blast
qed

text \<open>
  C2 as stated fails on the description of a signal: for a child killed by signal 9,
  named \<^verbatim>\<open>killed\<close>, the description has the name between double quotes.
\<close>

theorem signal_description_counterexample:
  "(case fst (run False \<lparr>ending = Waited (Killed 9) None, writes = [], touches = (\<lambda>f. f)\<rparr>
        \<lparr>files = \<lparr>paths = {}, mkdir_err = (\<lambda>p. None), sticky = {}\<rparr>, mem = empty_heap,
         environ = [], trace = []\<rparr>
        \<lparr>cmd = [''sleep'', ''9''], tmpdir = [], outBuf = zero_Buffer\<rparr> 1) of
      Returned (Some (RunError re)) \<Rightarrow> Error (\<lambda>sg. ''killed'') re
    | _ \<Rightarrow> []) = ''got signal '' @ [CHR 0x22] @ ''killed'' @ [CHR 0x22]
   \<and> ''got signal '' @ [CHR 0x22] @ ''killed'' @ [CHR 0x22] \<noteq> ''got signal killed''"
  by code_simp


subsection \<open>What \<^verbatim>\<open>run\<close> does to the outside\<close>

lemma cmd_Run_trace:
  "trace (snd (snd (cmd_Run ctx c argv env w b))) = trace w @ [EvRun argv env]"
  by (simp add: cmd_Run_def Let_def split: ending.splits)

lemma cmd_Run_files:
  "files (snd (snd (cmd_Run ctx c argv env w b))) =
     (case ending c of
        StartFailed msg \<Rightarrow> files w
      | Waited st late \<Rightarrow> if ctx then files w else touches c (files w))"
  by (simp add: cmd_Run_def Let_def split: ending.splits)

lemma cmd_Run_environ:
  "environ (snd (snd (cmd_Run ctx c argv env w b))) = environ w"
  by (simp add: cmd_Run_def Let_def split: ending.splits)

lemma run_trace_scratch:
  "cmd w \<noteq> [] \<Longrightarrow> tmpdir w \<noteq> [] \<Longrightarrow> os_Mkdir (files x) (scratch (tmpdir w) ident) = Inr fs1 \<Longrightarrow>
   trace (snd (snd (run ctx c x w ident))) =
     trace x @ [EvMkdir (scratch (tmpdir w) ident),
                EvRun (cmd w) (Some (environ x @ [''FLAKEDIR='' @ scratch (tmpdir w) ident])),
                EvRemoveAll (scratch (tmpdir w) ident)]"
  by (simp add: run_def Let_def cmd_Run_trace)

lemma run_files_scratch:
  "cmd w \<noteq> [] \<Longrightarrow> tmpdir w \<noteq> [] \<Longrightarrow> os_Mkdir (files x) (scratch (tmpdir w) ident) = Inr fs1 \<Longrightarrow>
   files (snd (snd (run ctx c x w ident))) =
     os_RemoveAll (case ending c of
                     StartFailed msg \<Rightarrow> fs1
                   | Waited st late \<Rightarrow> if ctx then fs1 else touches c fs1)
       (scratch (tmpdir w) ident)"
  by (simp add: run_def Let_def cmd_Run_files split: ending.splits)

lemma run_trace_plain:
  "cmd w \<noteq> [] \<Longrightarrow> tmpdir w = [] \<Longrightarrow>
   trace (snd (snd (run ctx c x w ident))) = trace x @ [EvRun (cmd w) None]"
  by (simp add: run_def Let_def cmd_Run_trace)

lemma run_files_plain:
  "cmd w \<noteq> [] \<Longrightarrow> tmpdir w = [] \<Longrightarrow>
   files (snd (snd (run ctx c x w ident))) =
     (case ending c of
        StartFailed msg \<Rightarrow> files x
      | Waited st late \<Rightarrow> if ctx then files x else touches c (files x))"
  by (simp add: run_def Let_def cmd_Run_files split: ending.splits)

lemma os_Mkdir_Inr:
  "os_Mkdir fs p = Inr fs1 \<Longrightarrow> p \<notin> paths fs \<and> fs1 = fs\<lparr>paths := insert p (paths fs)\<rparr>"
  by (auto simp: os_Mkdir_def split: option.splits if_splits)

lemma os_RemoveAll_absent:
  "d \<notin> sticky fs \<Longrightarrow> d \<notin> paths (os_RemoveAll fs d)"
  by (simp add: os_RemoveAll_def within_def)

lemma os_RemoveAll_below:
  "d \<notin> sticky fs \<Longrightarrow> within d q \<Longrightarrow> q \<notin> paths (os_RemoveAll fs d)"
  by (simp add: os_RemoveAll_def)

lemma takeWhile_stop: "\<not> P y \<Longrightarrow> takeWhile P (xs @ y # ys) = takeWhile P xs"
  by (induction xs) auto

lemma dropWhile_stop: "\<not> P y \<Longrightarrow> dropWhile P (xs @ y # ys) = dropWhile P xs @ y # ys"
  by (induction xs) auto

lemma getenv_append_last:
  "CHR ''='' \<notin> set k \<Longrightarrow> getenv (env @ [k @ CHR ''='' # v]) k = Some v"
proof (induction env)
  case Nil
  have all: "\<forall>x \<in> set k. x \<noteq> CHR ''=''"
    using Nil by auto
  have "takeWhile (\<lambda>x. x \<noteq> CHR ''='') (k @ CHR ''='' # v) = k"
    using all by (simp add: takeWhile_stop)
  moreover have "dropWhile (\<lambda>x. x \<noteq> CHR ''='') (k @ CHR ''='' # v) = CHR ''='' # v"
    using all by (simp add: dropWhile_stop)
  ultimately show ?case
    by (simp add: entry_key_def entry_value_def)
next
  case (Cons e env)
  then show ?case by simp
qed

lemma getenv_FLAKEDIR: "getenv (env @ [''FLAKEDIR='' @ d]) ''FLAKEDIR'' = Some d"
  using getenv_append_last [of "''FLAKEDIR''" env d] by simp

text \<open>
  C8 (as amended). For an invocation with a nonempty command: with a scratch root, once
  the directory is made, \<^verbatim>\<open>cmd.Run\<close> is called with the environment of the program
  followed by \<^verbatim>\<open>FLAKEDIR=\<close> and the scratch directory, so the child reads that path
  from \<^verbatim>\<open>FLAKEDIR\<close>; without a scratch root \<^verbatim>\<open>cmd.Env\<close> is nil, the child has the
  environment of the program as it is, and \<^verbatim>\<open>FLAKEDIR\<close> in it is whatever the program
  itself has.
\<close>

theorem child_environment:
  "cmd w \<noteq> [] \<Longrightarrow>
   (tmpdir w \<noteq> [] \<and> os_Mkdir (files x) (scratch (tmpdir w) ident) = Inr fs1 \<longrightarrow>
      trace (snd (snd (run ctx c x w ident))) =
        trace x @ [EvMkdir (scratch (tmpdir w) ident),
                   EvRun (cmd w) (Some (environ x @ [''FLAKEDIR='' @ scratch (tmpdir w) ident])),
                   EvRemoveAll (scratch (tmpdir w) ident)] \<and>
      getenv (child_env (environ x) (Some (environ x @ [''FLAKEDIR='' @ scratch (tmpdir w) ident])))
        ''FLAKEDIR'' = Some (scratch (tmpdir w) ident)) \<and>
   (tmpdir w = [] \<longrightarrow>
      trace (snd (snd (run ctx c x w ident))) = trace x @ [EvRun (cmd w) None] \<and>
      child_env (environ x) None = environ x \<and>
      getenv (child_env (environ x) None) ''FLAKEDIR'' = getenv (environ x) ''FLAKEDIR'')"
  using getenv_FLAKEDIR [of "environ x" "scratch (tmpdir w) ident"]
  by (simp add: run_trace_scratch run_trace_plain child_env_def)

theorem child_environment_witness:
  "trace (snd (snd (run False \<lparr>ending = Waited (Exited 0) None, writes = [], touches = (\<lambda>f. f)\<rparr>
       \<lparr>files = \<lparr>paths = {''/t''}, mkdir_err = (\<lambda>p. None), sticky = {}\<rparr>, mem = empty_heap,
        environ = [''HOME=/root''], trace = []\<rparr>
       \<lparr>cmd = [''true''], tmpdir = ''/t'', outBuf = zero_Buffer\<rparr> 7))) =
     [EvMkdir ''/t/7'', EvRun [''true''] (Some [''HOME=/root'', ''FLAKEDIR=/t/7'']), EvRemoveAll ''/t/7'']
   \<and> getenv (child_env [''HOME=/root''] (Some [''HOME=/root'', ''FLAKEDIR=/t/7''])) ''FLAKEDIR''
       = Some ''/t/7''
   \<and> trace (snd (snd (run False \<lparr>ending = Waited (Exited 0) None, writes = [], touches = (\<lambda>f. f)\<rparr>
       \<lparr>files = \<lparr>paths = {}, mkdir_err = (\<lambda>p. None), sticky = {}\<rparr>, mem = empty_heap,
        environ = [''HOME=/root''], trace = []\<rparr>
       \<lparr>cmd = [''true''], tmpdir = [], outBuf = zero_Buffer\<rparr> 7))) = [EvRun [''true''] None]
   \<and> getenv (child_env [''HOME=/root''] None) ''FLAKEDIR'' = None"
proof -
  have dir: "scratch ''/t'' 7 = ''/t/7''"
    by code_simp
  have none: "getenv [''HOME=/root''] ''FLAKEDIR'' = None"
    by code_simp
  have a: "trace (snd (snd (run False \<lparr>ending = Waited (Exited 0) None, writes = [], touches = (\<lambda>f. f)\<rparr>
       \<lparr>files = \<lparr>paths = {''/t''}, mkdir_err = (\<lambda>p. None), sticky = {}\<rparr>, mem = empty_heap,
        environ = [''HOME=/root''], trace = []\<rparr>
       \<lparr>cmd = [''true''], tmpdir = ''/t'', outBuf = zero_Buffer\<rparr> 7))) =
     [EvMkdir ''/t/7'', EvRun [''true''] (Some [''HOME=/root'', ''FLAKEDIR=/t/7'']), EvRemoveAll ''/t/7'']
   \<and> getenv (child_env [''HOME=/root''] (Some [''HOME=/root'', ''FLAKEDIR=/t/7''])) ''FLAKEDIR''
       = Some ''/t/7''"
    using child_environment [of "\<lparr>cmd = [''true''], tmpdir = ''/t'', outBuf = zero_Buffer\<rparr>"
        "\<lparr>files = \<lparr>paths = {''/t''}, mkdir_err = (\<lambda>p. None), sticky = {}\<rparr>, mem = empty_heap,
          environ = [''HOME=/root''], trace = []\<rparr>" 7
        "\<lparr>paths = {''/t/7'', ''/t''}, mkdir_err = (\<lambda>p. None), sticky = {}\<rparr>" False
        "\<lparr>ending = Waited (Exited 0) None, writes = [], touches = (\<lambda>f. f)\<rparr>"]
    by (simp add: dir os_Mkdir_def)
  have b: "trace (snd (snd (run False \<lparr>ending = Waited (Exited 0) None, writes = [], touches = (\<lambda>f. f)\<rparr>
       \<lparr>files = \<lparr>paths = {}, mkdir_err = (\<lambda>p. None), sticky = {}\<rparr>, mem = empty_heap,
        environ = [''HOME=/root''], trace = []\<rparr>
       \<lparr>cmd = [''true''], tmpdir = [], outBuf = zero_Buffer\<rparr> 7))) = [EvRun [''true''] None]
   \<and> getenv (child_env [''HOME=/root''] None) ''FLAKEDIR'' = None"
    using child_environment [of "\<lparr>cmd = [''true''], tmpdir = [], outBuf = zero_Buffer\<rparr>"
        "\<lparr>files = \<lparr>paths = {}, mkdir_err = (\<lambda>p. None), sticky = {}\<rparr>, mem = empty_heap,
          environ = [''HOME=/root''], trace = []\<rparr>" 7
        "\<lparr>paths = {}, mkdir_err = (\<lambda>p. None), sticky = {}\<rparr>" False
        "\<lparr>ending = Waited (Exited 0) None, writes = [], touches = (\<lambda>f. f)\<rparr>"]
    using none by (simp add: child_env_def)
  from a b show ?thesis
    by simp
qed

text \<open>
  C8 as stated fails when the program's own environment has \<^verbatim>\<open>FLAKEDIR\<close>: without a
  scratch root the child inherits it.
\<close>

theorem inherited_FLAKEDIR_counterexample:
  "tmpdir \<lparr>cmd = [''true''], tmpdir = [], outBuf = zero_Buffer\<rparr> = []
   \<and> trace (snd (snd (run False \<lparr>ending = Waited (Exited 0) None, writes = [], touches = (\<lambda>f. f)\<rparr>
       \<lparr>files = \<lparr>paths = {}, mkdir_err = (\<lambda>p. None), sticky = {}\<rparr>, mem = empty_heap,
        environ = [''FLAKEDIR=/elsewhere''], trace = []\<rparr>
       \<lparr>cmd = [''true''], tmpdir = [], outBuf = zero_Buffer\<rparr> 1))) = [EvRun [''true''] None]
   \<and> getenv (child_env [''FLAKEDIR=/elsewhere''] None) ''FLAKEDIR'' = Some ''/elsewhere''"
  by code_simp

text \<open>
  C4. For an invocation with a nonempty command and a scratch root: if \<^verbatim>\<open>os.Mkdir\<close>
  fails, \<^verbatim>\<open>run\<close> returns its error, \<^verbatim>\<open>cmd.Run\<close> is never called and the file system
  is as before. If it succeeds, the directory named by the id exists when \<^verbatim>\<open>cmd.Run\<close>
  is called, and whatever happens then (the start fails, the context is cancelled, the
  child exits with any status or is killed) \<^verbatim>\<open>os.RemoveAll\<close> is called on it after
  \<^verbatim>\<open>cmd.Run\<close>; the directory is gone afterwards, unless the system refuses the
  removal.
\<close>

theorem scratch_lifetime:
  "cmd w \<noteq> [] \<Longrightarrow> tmpdir w \<noteq> [] \<Longrightarrow>
   (os_Mkdir (files x) (scratch (tmpdir w) ident) = Inl e \<longrightarrow>
      fst (run ctx c x w ident) = Returned (Some e) \<and>
      trace (snd (snd (run ctx c x w ident))) = trace x @ [EvMkdir (scratch (tmpdir w) ident)] \<and>
      files (snd (snd (run ctx c x w ident))) = files x) \<and>
   (os_Mkdir (files x) (scratch (tmpdir w) ident) = Inr fs1 \<longrightarrow>
      scratch (tmpdir w) ident \<in> paths fs1 \<and>
      trace (snd (snd (run ctx c x w ident))) =
        trace x @ [EvMkdir (scratch (tmpdir w) ident),
                   EvRun (cmd w) (Some (environ x @ [''FLAKEDIR='' @ scratch (tmpdir w) ident])),
                   EvRemoveAll (scratch (tmpdir w) ident)] \<and>
      files (snd (snd (run ctx c x w ident))) =
        os_RemoveAll (case ending c of
                        StartFailed msg \<Rightarrow> fs1
                      | Waited st late \<Rightarrow> if ctx then fs1 else touches c fs1)
          (scratch (tmpdir w) ident) \<and>
      (scratch (tmpdir w) ident
         \<notin> sticky (case ending c of
                     StartFailed msg \<Rightarrow> fs1
                   | Waited st late \<Rightarrow> if ctx then fs1 else touches c fs1) \<longrightarrow>
       scratch (tmpdir w) ident \<notin> paths (files (snd (snd (run ctx c x w ident))))))"
proof (intro conjI impI)
  assume a: "cmd w \<noteq> []" "tmpdir w \<noteq> []"
    and e: "os_Mkdir (files x) (scratch (tmpdir w) ident) = Inl e"
  show "fst (run ctx c x w ident) = Returned (Some e)"
    by (simp add: run_mkdir_failed [OF a e])
  show "trace (snd (snd (run ctx c x w ident))) = trace x @ [EvMkdir (scratch (tmpdir w) ident)]"
    by (simp add: run_mkdir_failed [OF a e])
  show "files (snd (snd (run ctx c x w ident))) = files x"
    by (simp add: run_mkdir_failed [OF a e])
next
  assume a: "cmd w \<noteq> []" "tmpdir w \<noteq> []"
    and m: "os_Mkdir (files x) (scratch (tmpdir w) ident) = Inr fs1"
  show "scratch (tmpdir w) ident \<in> paths fs1"
    using os_Mkdir_Inr [OF m] by simp
  show "trace (snd (snd (run ctx c x w ident))) =
        trace x @ [EvMkdir (scratch (tmpdir w) ident),
                   EvRun (cmd w) (Some (environ x @ [''FLAKEDIR='' @ scratch (tmpdir w) ident])),
                   EvRemoveAll (scratch (tmpdir w) ident)]"
    by (rule run_trace_scratch [OF a m])
  show f: "files (snd (snd (run ctx c x w ident))) =
        os_RemoveAll (case ending c of
                        StartFailed msg \<Rightarrow> fs1
                      | Waited st late \<Rightarrow> if ctx then fs1 else touches c fs1)
          (scratch (tmpdir w) ident)"
    by (rule run_files_scratch [OF a m])
  assume "scratch (tmpdir w) ident
         \<notin> sticky (case ending c of
                     StartFailed msg \<Rightarrow> fs1
                   | Waited st late \<Rightarrow> if ctx then fs1 else touches c fs1)"
  then show "scratch (tmpdir w) ident \<notin> paths (files (snd (snd (run ctx c x w ident))))"
    by (simp only: f os_RemoveAll_absent not_False_eq_True)
qed

theorem scratch_lifetime_witness:
  "trace (snd (snd (run False
       \<lparr>ending = Waited (Exited 1) None, writes = [''boom''],
        touches = (\<lambda>f. f\<lparr>paths := insert ''/t/7/log'' (paths f)\<rparr>)\<rparr>
       \<lparr>files = \<lparr>paths = {''/t''}, mkdir_err = (\<lambda>p. None), sticky = {}\<rparr>, mem = empty_heap,
        environ = [], trace = []\<rparr>
       \<lparr>cmd = [''false''], tmpdir = ''/t'', outBuf = zero_Buffer\<rparr> 7))) =
     [EvMkdir ''/t/7'', EvRun [''false''] (Some [''FLAKEDIR=/t/7'']), EvRemoveAll ''/t/7'']
   \<and> ''/t/7'' \<notin> paths (files (snd (snd (run False
       \<lparr>ending = Waited (Exited 1) None, writes = [''boom''],
        touches = (\<lambda>f. f\<lparr>paths := insert ''/t/7/log'' (paths f)\<rparr>)\<rparr>
       \<lparr>files = \<lparr>paths = {''/t''}, mkdir_err = (\<lambda>p. None), sticky = {}\<rparr>, mem = empty_heap,
        environ = [], trace = []\<rparr>
       \<lparr>cmd = [''false''], tmpdir = ''/t'', outBuf = zero_Buffer\<rparr> 7))))
   \<and> trace (snd (snd (run False
       \<lparr>ending = Waited (Exited 0) None, writes = [], touches = (\<lambda>f. f)\<rparr>
       \<lparr>files = \<lparr>paths = {''/t''}, mkdir_err = (\<lambda>p. Some ''permission denied''), sticky = {}\<rparr>,
        mem = empty_heap, environ = [], trace = []\<rparr>
       \<lparr>cmd = [''true''], tmpdir = ''/t'', outBuf = zero_Buffer\<rparr> 7))) = [EvMkdir ''/t/7'']
   \<and> fst (run False
       \<lparr>ending = Waited (Exited 0) None, writes = [], touches = (\<lambda>f. f)\<rparr>
       \<lparr>files = \<lparr>paths = {''/t''}, mkdir_err = (\<lambda>p. Some ''permission denied''), sticky = {}\<rparr>,
        mem = empty_heap, environ = [], trace = []\<rparr>
       \<lparr>cmd = [''true''], tmpdir = ''/t'', outBuf = zero_Buffer\<rparr> 7)
       = Returned (Some (PathError ''mkdir'' ''/t/7'' ''permission denied''))"
proof -
  have dir: "scratch ''/t'' 7 = ''/t/7''"
    by code_simp
  have a: "trace (snd (snd (run False
       \<lparr>ending = Waited (Exited 1) None, writes = [''boom''],
        touches = (\<lambda>f. f\<lparr>paths := insert ''/t/7/log'' (paths f)\<rparr>)\<rparr>
       \<lparr>files = \<lparr>paths = {''/t''}, mkdir_err = (\<lambda>p. None), sticky = {}\<rparr>, mem = empty_heap,
        environ = [], trace = []\<rparr>
       \<lparr>cmd = [''false''], tmpdir = ''/t'', outBuf = zero_Buffer\<rparr> 7))) =
     [EvMkdir ''/t/7'', EvRun [''false''] (Some [''FLAKEDIR=/t/7'']), EvRemoveAll ''/t/7'']
   \<and> ''/t/7'' \<notin> paths (files (snd (snd (run False
       \<lparr>ending = Waited (Exited 1) None, writes = [''boom''],
        touches = (\<lambda>f. f\<lparr>paths := insert ''/t/7/log'' (paths f)\<rparr>)\<rparr>
       \<lparr>files = \<lparr>paths = {''/t''}, mkdir_err = (\<lambda>p. None), sticky = {}\<rparr>, mem = empty_heap,
        environ = [], trace = []\<rparr>
       \<lparr>cmd = [''false''], tmpdir = ''/t'', outBuf = zero_Buffer\<rparr> 7))))"
    using scratch_lifetime [of "\<lparr>cmd = [''false''], tmpdir = ''/t'', outBuf = zero_Buffer\<rparr>"
        "\<lparr>files = \<lparr>paths = {''/t''}, mkdir_err = (\<lambda>p. None), sticky = {}\<rparr>, mem = empty_heap,
          environ = [], trace = []\<rparr>" 7 "OtherError []"
        False "\<lparr>ending = Waited (Exited 1) None, writes = [''boom''],
                touches = (\<lambda>f. f\<lparr>paths := insert ''/t/7/log'' (paths f)\<rparr>)\<rparr>"
        "\<lparr>paths = {''/t/7'', ''/t''}, mkdir_err = (\<lambda>p. None), sticky = {}\<rparr>"]
    by (auto simp add: dir os_Mkdir_def)
  have b: "trace (snd (snd (run False
       \<lparr>ending = Waited (Exited 0) None, writes = [], touches = (\<lambda>f. f)\<rparr>
       \<lparr>files = \<lparr>paths = {''/t''}, mkdir_err = (\<lambda>p. Some ''permission denied''), sticky = {}\<rparr>,
        mem = empty_heap, environ = [], trace = []\<rparr>
       \<lparr>cmd = [''true''], tmpdir = ''/t'', outBuf = zero_Buffer\<rparr> 7))) = [EvMkdir ''/t/7'']
   \<and> fst (run False
       \<lparr>ending = Waited (Exited 0) None, writes = [], touches = (\<lambda>f. f)\<rparr>
       \<lparr>files = \<lparr>paths = {''/t''}, mkdir_err = (\<lambda>p. Some ''permission denied''), sticky = {}\<rparr>,
        mem = empty_heap, environ = [], trace = []\<rparr>
       \<lparr>cmd = [''true''], tmpdir = ''/t'', outBuf = zero_Buffer\<rparr> 7)
       = Returned (Some (PathError ''mkdir'' ''/t/7'' ''permission denied''))"
    using scratch_lifetime [of "\<lparr>cmd = [''true''], tmpdir = ''/t'', outBuf = zero_Buffer\<rparr>"
        "\<lparr>files = \<lparr>paths = {''/t''}, mkdir_err = (\<lambda>p. Some ''permission denied''), sticky = {}\<rparr>,
          mem = empty_heap, environ = [], trace = []\<rparr>" 7
        "PathError ''mkdir'' ''/t/7'' ''permission denied''"
        False "\<lparr>ending = Waited (Exited 0) None, writes = [], touches = (\<lambda>f. f)\<rparr>"
        "\<lparr>paths = {}, mkdir_err = (\<lambda>p. None), sticky = {}\<rparr>"]
    by (simp add: dir os_Mkdir_def)
  from a b show ?thesis
    by simp
qed


subsection \<open>The average\<close>

lemma signed_fits:
  "- (2 ^ 63) \<le> k \<Longrightarrow> k < 2 ^ 63 \<Longrightarrow> signed_take_bit 63 (k :: int) = k"
  by (simp add: signed_take_bit_int_eq_self)

lemma sint_mult_exact:
  fixes a b :: int64
  assumes "0 \<le> sint a" "0 \<le> sint b" "sint a * sint b < 2 ^ 63"
  shows "sint (a * b) = sint a * sint b"
proof -
  have "0 \<le> sint a * sint b"
    using assms by simp
  then have "- (2 ^ 63) \<le> sint a * sint b"
    by simp
  then have "signed_take_bit 63 (sint a * sint b) = sint a * sint b"
    using assms(3) by (rule signed_fits)
  then show ?thesis
    by (simp add: sint_word_mult)
qed

lemma quo_exact:
  fixes k l :: int
  assumes "0 \<le> k" "k < 2 ^ 63" "0 < l"
  shows "sint (word_of_int (k sdiv l) :: int64) = k div l"
proof -
  have eq: "k sdiv l = k div l"
    using assms by (simp add: signed_divide_int_def sgn_if)
  have "0 \<le> k div l"
    using assms by (simp add: pos_imp_zdiv_nonneg_iff)
  moreover have "k div l \<le> k"
    using assms by (metis div_by_1 int_one_le_iff_zero_less zdiv_mono2 le_less)
  ultimately have "- (2 ^ 63) \<le> k div l" "k div l < 2 ^ 63"
    using assms by simp_all
  then have "signed_take_bit 63 (k div l) = k div l"
    by (rule signed_fits)
  then show ?thesis
    by (simp add: eq sint_sbintrunc')
qed

text \<open>
  C9 (as amended). With no success counted \<^verbatim>\<open>avg\<close> is the empty string. Otherwise it
  shows the duration \<^verbatim>\<open>parallelism * since / n\<close> as \<^verbatim>\<open>int64\<close> computes it, and that
  is the exact quotient of the product by \<open>n\<close> whenever the product of the parallelism
  and the elapsed nanoseconds is below \<open>2 ^ 63\<close>.
\<close>

theorem avg_value:
  "avg pf p since 0 = [] \<and>
   (n \<noteq> 0 \<longrightarrow> avg pf p since n = '' (avg = '' @ duration_String pf (quo (p * since) n) @ '')'') \<and>
   (0 \<le> sint p \<and> 0 \<le> sint since \<and> 0 < sint n \<and> sint p * sint since < 2 ^ 63 \<longrightarrow>
      sint (quo (p * since) n) = (sint p * sint since) div sint n)"
proof (intro conjI impI)
  show "avg pf p since 0 = []"
    by (simp add: avg_def)
  show "avg pf p since n = '' (avg = '' @ duration_String pf (quo (p * since) n) @ '')''" if "n \<noteq> 0"
    using that by (simp add: avg_def)
  assume a: "0 \<le> sint p \<and> 0 \<le> sint since \<and> 0 < sint n \<and> sint p * sint since < 2 ^ 63"
  then have m: "sint (p * since) = sint p * sint since"
    by (simp add: sint_mult_exact)
  have "0 \<le> sint p * sint since"
    using a by simp
  then show "sint (quo (p * since) n) = (sint p * sint since) div sint n"
    using a quo_exact [of "sint p * sint since" "sint n"] by (simp add: quo_def m)
qed

theorem avg_value_witness:
  "avg \<lparr>signame = (\<lambda>sg. []), duration_String = (\<lambda>d. FormatInt (sint d)), PrintDefaults = [],
        stdoutIsTTY = False\<rparr> 4 3000000000 0 = []
   \<and> avg \<lparr>signame = (\<lambda>sg. []), duration_String = (\<lambda>d. FormatInt (sint d)), PrintDefaults = [],
        stdoutIsTTY = False\<rparr> 4 3000000000 7 = '' (avg = 1714285714)''
   \<and> sint (quo (4 * 3000000000) 7 :: int64) = 1714285714"
proof -
  have f: "FormatInt 1714285714 = ''1714285714''"
    by (simp add: FormatInt_def digits.simps digit_def)
  have s: "sint (4 :: int64) = 4" "sint (3000000000 :: int64) = 3000000000" "sint (7 :: int64) = 7"
    by simp_all
  have q: "sint (quo (4 * 3000000000) 7 :: int64) = 1714285714"
    using avg_value [of _ 4 3000000000 7] by (simp add: s)
  show ?thesis
    using avg_value [of "\<lparr>signame = (\<lambda>sg. []), duration_String = (\<lambda>d. FormatInt (sint d)),
        PrintDefaults = [], stdoutIsTTY = False\<rparr>" 4 3000000000 7] q
    by (simp add: f)
qed

text \<open>
  C9 as stated fails once the product overflows: 10000 lanes after 1000000 seconds
  (under twelve days) and one success give a negative duration, not the quotient
  \<open>10 ^ 19\<close>.
\<close>

theorem avg_overflow_counterexample:
  "sint (quo (10000 * 1000000000000000) 1 :: int64) = - 8446744073709551616
   \<and> sint (10000 :: int64) * sint (1000000000000000 :: int64) div sint (1 :: int64)
       = 10000000000000000000
   \<and> avg \<lparr>signame = (\<lambda>sg. []), duration_String = (\<lambda>d. FormatInt (sint d)), PrintDefaults = [],
        stdoutIsTTY = False\<rparr> 10000 1000000000000000 1 = '' (avg = -8446744073709551616)''"
proof -
  have m: "(10000 * 1000000000000000 :: int64) = - 8446744073709551616"
    by simp
  have q: "quo (- 8446744073709551616) 1 = (- 8446744073709551616 :: int64)"
    by (simp add: quo_def signed_divide_int_def sgn_if)
  have f: "FormatInt (- 8446744073709551616) = ''-8446744073709551616''"
    by (simp add: FormatInt_def digits.simps digit_def)
  have a: "sint (quo (10000 * 1000000000000000) 1 :: int64) = - 8446744073709551616"
    unfolding m q by simp
  have b: "sint (10000 :: int64) * sint (1000000000000000 :: int64) div sint (1 :: int64)
       = 10000000000000000000"
    by simp
  have c: "avg \<lparr>signame = (\<lambda>sg. []), duration_String = (\<lambda>d. FormatInt (sint d)), PrintDefaults = [],
        stdoutIsTTY = False\<rparr> 10000 1000000000000000 1 = '' (avg = -8446744073709551616)''"
    unfolding avg_def m q by (simp add: f)
  from a b c show ?thesis
    by blast
qed

subsection \<open>The program as a whole\<close>

lemma set_at_lanes [simp]:
  "k < length (lanes s) \<Longrightarrow> at (lanes (set_at k p s) ! k) = p"
  by (simp add: set_at_def)

lemma set_at_fields [simp]:
  "main_id (set_at k p s) = main_id s" "claimed (set_at k p s) = claimed s"
  "main_ctx (set_at k p s) = main_ctx s" "main_n (set_at k p s) = main_n s"
  "main_err (set_at k p s) = main_err s" "main_at (set_at k p s) = main_at s"
  "outside (set_at k p s) = outside s" "main_tmpdir (set_at k p s) = main_tmpdir s"
  "length (lanes (set_at k p s)) = length (lanes s)"
  by (simp_all add: set_at_def)

lemma step_actor_bound:
  "actor l = Some k \<Longrightarrow> step pf fl l s = Some s' \<Longrightarrow> k < length (lanes s) \<and> running s"
  by (cases l) (auto simp: running_def split: if_splits)

lemma step_from_AtCheck:
  "at (lanes s ! k) = AtCheck \<Longrightarrow> actor l = Some k \<Longrightarrow> step pf fl l s = Some s' \<Longrightarrow>
   l = Check k \<and> s' = set_at k (if main_ctx s then Exited' else AtClaim) s"
  by (cases l) (auto split: if_splits pc.splits)

lemma step_from_AtClaim:
  "at (lanes s ! k) = AtClaim \<Longrightarrow> actor l = Some k \<Longrightarrow> step pf fl l s = Some s' \<Longrightarrow>
   l = Claim k"
  by (cases l) (auto split: if_splits pc.splits)

lemma step_from_AtPublish:
  "at (lanes s ! k) = AtPublish e \<Longrightarrow> actor l = Some k \<Longrightarrow> step pf fl l s = Some s' \<Longrightarrow>
   (l = Send k \<and> main_at s = InLoop \<and>
      s' = (case e of
              None \<Rightarrow> set_at k AtCheck (s\<lparr>main_err := None, main_n := main_n s + 1\<rparr>)
            | Some x \<Rightarrow> set_at k Exited' (s\<lparr>main_err := Some x, main_at := Broke\<rparr>)))
   \<or> (l = Abandon k \<and> main_ctx s \<and> s' = set_at k Exited' s)"
  by (cases l) (auto split: if_splits pc.splits option.splits)

lemma step_from_Exited:
  "at (lanes s ! k) = Exited' \<Longrightarrow> actor l = Some k \<Longrightarrow> step pf fl l s = None"
  by (cases l) (auto split: if_splits pc.splits)

lemma step_to_AtClaim:
  "actor l = Some k \<Longrightarrow> step pf fl l s = Some s' \<Longrightarrow> at (lanes s' ! k) = AtClaim \<Longrightarrow>
   l = Check k \<and> at (lanes s ! k) = AtCheck \<and> \<not> main_ctx s"
  by (cases l) (auto simp: Let_def split: if_splits pc.splits option.splits result.splits)

lemma step_changes_id:
  "step pf fl l s = Some s' \<Longrightarrow> main_id s' \<noteq> main_id s \<or> claimed s' \<noteq> claimed s \<Longrightarrow>
   \<exists>k. l = Claim k \<and> at (lanes s ! k) = AtClaim"
  by (cases l) (auto simp: Let_def report_def split: if_splits pc.splits option.splits result.splits)

text \<open>
  C5. A goroutine at the top of its loop with the context cancelled can only take the
  first \<^verbatim>\<open>select\<close>, which makes it return without a call of \<^verbatim>\<open>atomic.AddInt64\<close>: the
  counter and the ids handed out are unchanged. A goroutine reaches
  \<^verbatim>\<open>atomic.AddInt64\<close> only from that \<^verbatim>\<open>select\<close> with the context not cancelled, and
  the counter changes in no other step. A goroutine whose invocation returned an error
  can only go through the second \<^verbatim>\<open>select\<close> (its error reaches \<^verbatim>\<open>main\<close>, or the
  context is cancelled and the error is dropped) and has returned after it; a goroutine
  that has returned takes no further step.
\<close>

theorem worker_loop_exits:
  "(at (lanes s ! k) = AtCheck \<and> main_ctx s \<and> actor l = Some k \<and> step pf fl l s = Some s' \<longrightarrow>
      l = Check k \<and> at (lanes s' ! k) = Exited' \<and> main_id s' = main_id s \<and> claimed s' = claimed s) \<and>
   (actor l = Some k \<and> step pf fl l s = Some s' \<and> at (lanes s' ! k) = AtClaim \<longrightarrow>
      l = Check k \<and> at (lanes s ! k) = AtCheck \<and> \<not> main_ctx s) \<and>
   (step pf fl l s = Some s' \<and> main_id s' \<noteq> main_id s \<longrightarrow>
      (\<exists>j. l = Claim j \<and> at (lanes s ! j) = AtClaim)) \<and>
   (at (lanes s ! k) = AtPublish (Some e) \<and> actor l = Some k \<and> step pf fl l s = Some s' \<longrightarrow>
      at (lanes s' ! k) = Exited' \<and> main_id s' = main_id s \<and>
      (l = Send k \<and> main_err s' = Some e \<or> l = Abandon k \<and> main_ctx s)) \<and>
   (at (lanes s ! k) = Exited' \<and> actor l = Some k \<longrightarrow> step pf fl l s = None)"
proof -
  have c1: "at (lanes s ! k) = AtCheck \<and> main_ctx s \<and> actor l = Some k \<and> step pf fl l s = Some s' \<longrightarrow>
      l = Check k \<and> at (lanes s' ! k) = Exited' \<and> main_id s' = main_id s \<and> claimed s' = claimed s"
  proof
    assume a: "at (lanes s ! k) = AtCheck \<and> main_ctx s \<and> actor l = Some k \<and> step pf fl l s = Some s'"
    then have b: "k < length (lanes s)"
      using step_actor_bound by blast
    from a have "l = Check k \<and> s' = set_at k Exited' s"
      using step_from_AtCheck [of s k l pf fl s'] by simp
    with b show "l = Check k \<and> at (lanes s' ! k) = Exited' \<and> main_id s' = main_id s \<and> claimed s' = claimed s"
      by simp
  qed
  have c2: "actor l = Some k \<and> step pf fl l s = Some s' \<and> at (lanes s' ! k) = AtClaim \<longrightarrow>
      l = Check k \<and> at (lanes s ! k) = AtCheck \<and> \<not> main_ctx s"
    using step_to_AtClaim by blast
  have c3: "step pf fl l s = Some s' \<and> main_id s' \<noteq> main_id s \<longrightarrow>
      (\<exists>j. l = Claim j \<and> at (lanes s ! j) = AtClaim)"
    using step_changes_id by blast
  have c4: "at (lanes s ! k) = AtPublish (Some e) \<and> actor l = Some k \<and> step pf fl l s = Some s' \<longrightarrow>
      at (lanes s' ! k) = Exited' \<and> main_id s' = main_id s \<and>
      (l = Send k \<and> main_err s' = Some e \<or> l = Abandon k \<and> main_ctx s)"
  proof
    assume a: "at (lanes s ! k) = AtPublish (Some e) \<and> actor l = Some k \<and> step pf fl l s = Some s'"
    then have b: "k < length (lanes s)"
      using step_actor_bound by blast
    from a have "(l = Send k \<and> s' = set_at k Exited' (s\<lparr>main_err := Some e, main_at := Broke\<rparr>))
       \<or> (l = Abandon k \<and> main_ctx s \<and> s' = set_at k Exited' s)"
      using step_from_AtPublish [of s k "Some e" l pf fl s'] by auto
    with b show "at (lanes s' ! k) = Exited' \<and> main_id s' = main_id s \<and>
        (l = Send k \<and> main_err s' = Some e \<or> l = Abandon k \<and> main_ctx s)"
      by auto
  qed
  have c5: "at (lanes s ! k) = Exited' \<and> actor l = Some k \<longrightarrow> step pf fl l s = None"
    using step_from_Exited by blast
  show ?thesis
    by (intro conjI) (rule c1 c2 c3 c4 c5)+
qed

lemma exec_invariant:
  assumes "\<And>l s s'. P s \<Longrightarrow> step pf fl l s = Some s' \<Longrightarrow> P s'"
  shows "P s \<Longrightarrow> exec pf fl ls s = Some s' \<Longrightarrow> P s'"
proof (induction ls arbitrary: s)
  case Nil
  then show ?case by simp
next
  case (Cons l ls)
  then obtain s1 where s1: "step pf fl l s = Some s1" "exec pf fl ls s1 = Some s'"
    by (auto split: option.splits)
  from assms [OF Cons.prems(1) s1(1)] have "P s1" .
  from Cons.IH [OF this s1(2)] show ?case .
qed

lemma step_not_running: "\<not> running s \<Longrightarrow> step pf fl l s = None"
  by (cases l) (auto simp: running_def split: main_pc.splits)

lemma exec_not_running: "\<not> running s \<Longrightarrow> exec pf fl ls s = Some s' \<Longrightarrow> s' = s"
  by (cases ls) (simp_all add: step_not_running)

lemma run_worker_fields:
  "cmd (fst (snd (run ctx c x w ident))) = cmd w \<and> tmpdir (fst (snd (run ctx c x w ident))) = tmpdir w"
  by (simp add: run_def Let_def split: sum.splits)

lemma set_at_wk [simp]:
  "j < length (lanes s) \<Longrightarrow> wk (lanes (set_at k p s) ! j) = wk (lanes s ! j)"
  by (cases "j = k") (simp_all add: set_at_def)

lemma lanes_ok_set_at: "lanes_ok fl s \<Longrightarrow> lanes_ok fl (set_at k p s)"
  by (simp add: lanes_ok_def)

lemma lanes_ok_update:
  "lanes_ok fl s \<Longrightarrow> main_tmpdir s' = main_tmpdir s \<Longrightarrow> lanes s' = lanes s \<Longrightarrow> lanes_ok fl s'"
  by (simp add: lanes_ok_def)

lemma lanes_ok_step: "lanes_ok fl s \<Longrightarrow> step pf fl l s = Some s' \<Longrightarrow> lanes_ok fl s'"
proof (cases l)
  case (Run k c)
  assume a: "lanes_ok fl s" "step pf fl l s = Some s'"
  with Run have k: "k < length (lanes s)"
    by (auto split: if_splits)
  then have w: "cmd (wk (lanes s ! k)) = Args fl \<and> tmpdir (wk (lanes s ! k)) = main_tmpdir s"
    using a(1) by (simp add: lanes_ok_def)
  from a(2) Run k obtain ident where i: "at (lanes s ! k) = AtRun ident"
    by (auto split: if_splits pc.splits)
  show ?thesis
  proof (cases "fst (run (main_ctx s) c (outside s) (wk (lanes s ! k)) ident)")
    case Panicked
    with a Run k i have "s' = s\<lparr>main_at := Finished 2\<rparr>"
      by (auto simp: Let_def split: if_splits)
    with a(1) show ?thesis
      by (simp add: lanes_ok_def)
  next
    case (Returned e)
    with a Run k i have s': "s' = s\<lparr>lanes := (lanes s)[k :=
        \<lparr>wk = fst (snd (run (main_ctx s) c (outside s) (wk (lanes s ! k)) ident)), at = AtPublish e\<rparr>],
        outside := snd (snd (run (main_ctx s) c (outside s) (wk (lanes s ! k)) ident))\<rparr>"
      by (auto simp: Let_def split: if_splits)
    show ?thesis
      unfolding lanes_ok_def
    proof (intro allI impI)
      fix j assume "j < length (lanes s')"
      then have j: "j < length (lanes s)"
        by (simp add: s')
      show "cmd (wk (lanes s' ! j)) = Args fl \<and> tmpdir (wk (lanes s' ! j)) = main_tmpdir s'"
      proof (cases "j = k")
        case True
        with j w show ?thesis
          by (simp add: s' run_worker_fields)
      next
        case False
        with j a(1) show ?thesis
          by (simp add: s' lanes_ok_def)
      qed
    qed
  qed
next
  case (Check k)
  assume "lanes_ok fl s" "step pf fl l s = Some s'"
  with Check show ?thesis
    by (auto simp: lanes_ok_set_at split: if_splits)
next
  case (Claim k)
  assume "lanes_ok fl s" "step pf fl l s = Some s'"
  with Claim show ?thesis
    by (auto simp: lanes_ok_def split: if_splits)
next
  case (Send k)
  assume "lanes_ok fl s" "step pf fl l s = Some s'"
  with Send show ?thesis
    by (auto simp: lanes_ok_def split: if_splits pc.splits option.splits)
next
  case (Abandon k)
  assume "lanes_ok fl s" "step pf fl l s = Some s'"
  with Abandon show ?thesis
    by (auto simp: lanes_ok_set_at split: if_splits pc.splits)
next
  case (Tick d)
  assume "lanes_ok fl s" "step pf fl l s = Some s'"
  with Tick show ?thesis
    by (auto simp: lanes_ok_def split: if_splits)
next
  case Interrupt
  assume "lanes_ok fl s" "step pf fl l s = Some s'"
  with Interrupt show ?thesis
    by (auto simp: lanes_ok_def split: if_splits)
next
  case Cancel
  assume "lanes_ok fl s" "step pf fl l s = Some s'"
  with Cancel show ?thesis
    by (auto simp: lanes_ok_def split: if_splits)
next
  case (Wait d)
  assume "lanes_ok fl s" "step pf fl l s = Some s'"
  with Wait show ?thesis
    by (auto simp: lanes_ok_def report_def Let_def split: if_splits)
qed

lemma run_no_panic: "cmd w \<noteq> [] \<Longrightarrow> fst (run ctx c x w ident) \<noteq> Panicked"
  by (simp add: run_def Let_def split: sum.splits)

lemma exits_zero_step: "exits_zero fl s \<Longrightarrow> step pf fl l s = Some s' \<Longrightarrow> exits_zero fl s'"
proof -
  assume a: "exits_zero fl s" "step pf fl l s = Some s'"
  then have ok: "lanes_ok fl s'"
    using lanes_ok_step by (auto simp: exits_zero_def)
  have "\<forall>st. main_at s' = Finished st \<longrightarrow> st = 0"
  proof (cases l)
    case (Run k c)
    with a have k: "k < length (lanes s)"
      by (auto split: if_splits)
    then have "cmd (wk (lanes s ! k)) \<noteq> []"
      using a(1) by (simp add: exits_zero_def lanes_ok_def)
    then have "fst (run (main_ctx s) c (outside s) (wk (lanes s ! k)) i) \<noteq> Panicked" for i
      by (rule run_no_panic)
    with a Run show ?thesis
      by (auto simp: exits_zero_def Let_def split: if_splits pc.splits result.splits)
  qed (use a in \<open>auto simp: exits_zero_def report_def Let_def set_at_def
         split: if_splits pc.splits option.splits\<close>)
  with ok a show ?thesis
    by (simp add: exits_zero_def)
qed

lemma exits_zero_spawned: "Args fl \<noteq> [] \<Longrightarrow> exits_zero fl (spawned fl root w)"
  by (simp add: exits_zero_def lanes_ok_def spawned_def)

text \<open>
  C1 (as amended). Whenever the program has exited, its status is 1 if \<^verbatim>\<open>-p\<close> is below
  1; otherwise 2 if no command was given; otherwise 1 if the scratch root of the run
  could not be made; and otherwise 0, whatever ended the loop: a signal, a failing
  invocation, or an invocation that returned any other error.
\<close>

theorem exit_status_value:
  "exec pf fl ls (main_start pf fl rnd w) = Some s \<and> exit_status s = Some st \<longrightarrow>
   st = (if parallelism fl <s 1 then 1
         else if Args fl = [] then 2
         else if tmpdir_flag fl \<noteq> [] \<and> isl (os_MkdirTemp (files w) (tmpdir_flag fl) rnd) then 1
         else 0)"
proof
  assume a: "exec pf fl ls (main_start pf fl rnd w) = Some s \<and> exit_status s = Some st"
  have h: "exec pf fl ls (halted c m w) = Some s \<Longrightarrow> exit_status s = Some c" for c m
    using exec_not_running [of "halted c m w" pf fl ls s]
    by (auto simp: running_def halted_def exit_status_def)
  have z: "Args fl \<noteq> [] \<Longrightarrow> exec pf fl ls (spawned fl root x) = Some s \<Longrightarrow> st = 0" for root x
  proof -
    assume "Args fl \<noteq> []" and e: "exec pf fl ls (spawned fl root x) = Some s"
    then have "exits_zero fl (spawned fl root x)"
      by (simp add: exits_zero_spawned)
    then have "exits_zero fl s"
      using exits_zero_step e exec_invariant [of "exits_zero fl" pf fl "spawned fl root x" ls s]
      by blast
    with a show "st = 0"
      by (auto simp: exits_zero_def exit_status_def split: main_pc.splits)
  qed
  show "st = (if parallelism fl <s 1 then 1
         else if Args fl = [] then 2
         else if tmpdir_flag fl \<noteq> [] \<and> isl (os_MkdirTemp (files w) (tmpdir_flag fl) rnd) then 1
         else 0)"
  proof (cases "parallelism fl <s 1")
    case True
    with a h show ?thesis
      by (auto simp: main_start_def)
  next
    case False
    note p = this
    show ?thesis
    proof (cases "Args fl = []")
      case True
      with a h p show ?thesis
        by (auto simp: main_start_def)
    next
      case False
      note args = this
      show ?thesis
      proof (cases "tmpdir_flag fl = []")
        case True
        with a p args z show ?thesis
          by (auto simp: main_start_def)
      next
        case False
        with a p args z h show ?thesis
          by (cases "os_MkdirTemp (files w) (tmpdir_flag fl) rnd")
            (auto simp: main_start_def split: prod.splits)
      qed
    qed
  qed
qed

lemma cancelled_late_step:
  "cancelled_late s \<Longrightarrow> step pf fl l s = Some s' \<Longrightarrow> cancelled_late s'"
  by (cases l)
    (auto simp: cancelled_late_def report_def Let_def
      split: if_splits pc.splits option.splits result.splits)

lemma cancelled_late_start: "cancelled_late (main_start pf fl rnd w)"
  by (simp add: cancelled_late_def main_start_def halted_def spawned_def split: sum.splits prod.splits)

lemma cancelled_late_exec:
  "exec pf fl ls (main_start pf fl rnd w) = Some s \<Longrightarrow> cancelled_late s"
  using exec_invariant [of cancelled_late pf fl "main_start pf fl rnd w" ls s]
    cancelled_late_step cancelled_late_start by blast

text \<open>
  C6. In every state the program reaches, a goroutine in its second \<^verbatim>\<open>select\<close> with
  the context cancelled can take the \<^verbatim>\<open>ctx.Done()\<close> case, so it is not blocked; the
  send cannot be taken, since \<^verbatim>\<open>main\<close> has left its loop before it cancels; and the
  only step the goroutine has makes it return, with nothing delivered to \<^verbatim>\<open>main\<close>.
\<close>

theorem publish_never_blocks:
  "exec pf fl ls (main_start pf fl rnd w) = Some s \<and> main_ctx s \<and> running s \<and>
   k < length (lanes s) \<and> at (lanes s ! k) = AtPublish e \<longrightarrow>
     step pf fl (Abandon k) s = Some (set_at k Exited' s) \<and>
     step pf fl (Send k) s = None \<and>
     (\<forall>l s'. actor l = Some k \<and> step pf fl l s = Some s' \<longrightarrow>
        l = Abandon k \<and> at (lanes s' ! k) = Exited' \<and> main_n s' = main_n s \<and>
        main_err s' = main_err s \<and> main_id s' = main_id s)"
proof
  assume a: "exec pf fl ls (main_start pf fl rnd w) = Some s \<and> main_ctx s \<and> running s \<and>
   k < length (lanes s) \<and> at (lanes s ! k) = AtPublish e"
  then have late: "main_at s \<noteq> InLoop"
    using cancelled_late_exec [of pf fl ls rnd w s] by (simp add: cancelled_late_def)
  have c1: "step pf fl (Abandon k) s = Some (set_at k Exited' s)"
    using a by simp
  have c2: "step pf fl (Send k) s = None"
    using late by simp
  have c3: "\<forall>l s'. actor l = Some k \<and> step pf fl l s = Some s' \<longrightarrow>
        l = Abandon k \<and> at (lanes s' ! k) = Exited' \<and> main_n s' = main_n s \<and>
        main_err s' = main_err s \<and> main_id s' = main_id s"
  proof (intro allI impI)
    fix l s' assume b: "actor l = Some k \<and> step pf fl l s = Some s'"
    with a late have "l = Abandon k \<and> s' = set_at k Exited' s"
      using step_from_AtPublish [of s k e l pf fl s'] by auto
    with a show "l = Abandon k \<and> at (lanes s' ! k) = Exited' \<and> main_n s' = main_n s \<and>
        main_err s' = main_err s \<and> main_id s' = main_id s"
      by simp
  qed
  from c1 c2 c3 show "step pf fl (Abandon k) s = Some (set_at k Exited' s) \<and>
     step pf fl (Send k) s = None \<and>
     (\<forall>l s'. actor l = Some k \<and> step pf fl l s = Some s' \<longrightarrow>
        l = Abandon k \<and> at (lanes s' ! k) = Exited' \<and> main_n s' = main_n s \<and>
        main_err s' = main_err s \<and> main_id s' = main_id s)"
    by blast
qed

lemma ids_counted_step:
  "ids_counted s \<Longrightarrow> step pf fl l s = Some s' \<Longrightarrow> ids_counted s'"
  by (cases l)
    (auto simp: ids_counted_def report_def Let_def
      split: if_splits pc.splits option.splits result.splits)

lemma ids_counted_start: "ids_counted (main_start pf fl rnd w)"
  by (simp add: ids_counted_def main_start_def halted_def spawned_def split: sum.splits prod.splits)

lemma ids_counted_exec:
  "exec pf fl ls (main_start pf fl rnd w) = Some s \<Longrightarrow> ids_counted s"
  using exec_invariant [of ids_counted pf fl "main_start pf fl rnd w" ls s]
    ids_counted_step ids_counted_start by blast

lemma sint_of_nat_small: "j < 2 ^ 63 \<Longrightarrow> sint (of_nat j :: int64) = int j"
proof -
  assume "j < 2 ^ 63"
  then have "int j < 2 ^ 63"
    by (metis of_nat_less_iff of_nat_numeral of_nat_power)
  moreover have "- (2 ^ 63) \<le> int j"
    by (smt (verit) zero_le_power of_nat_0_le_iff)
  ultimately have "signed_take_bit 63 (int j) = int j"
    by (simp add: signed_take_bit_int_eq_self)
  moreover have "(of_nat j :: int64) = word_of_int (int j)"
    by simp
  moreover have "sint (word_of_int (int j) :: int64) = signed_take_bit 63 (int j)"
    by (simp only: sint_sbintrunc') simp
  ultimately show ?thesis
    by simp
qed

text \<open>
  C10. In every state the program reaches, the counter is the number of ids handed out,
  the first id is 1 and each next one is the one before plus 1; read as signed numbers
  the ids are 1, 2, ..., k as long as fewer than \<open>2 ^ 63\<close> were handed out (the range of
  \<^verbatim>\<open>int64\<close>).
\<close>

theorem ids_contiguous:
  "exec pf fl ls (main_start pf fl rnd w) = Some s \<longrightarrow>
     main_id s = of_nat (length (claimed s)) \<and>
     (\<forall>j < length (claimed s).
        snd (claimed s ! j) = (if j = 0 then 1 else snd (claimed s ! (j - 1)) + 1)) \<and>
     (length (claimed s) < 2 ^ 63 \<longrightarrow>
        map (\<lambda>c. sint (snd c)) (claimed s) = map int [1..<Suc (length (claimed s))])"
proof
  assume "exec pf fl ls (main_start pf fl rnd w) = Some s"
  then have inv: "ids_counted s"
    by (rule ids_counted_exec)
  then have m: "map snd (claimed s) = map of_nat [1..<Suc (length (claimed s))]"
    by (simp add: ids_counted_def)
  have nth: "snd (claimed s ! j) = of_nat (Suc j)" if "j < length (claimed s)" for j
  proof -
    have "snd (claimed s ! j) = map snd (claimed s) ! j"
      using that by simp
    also have "\<dots> = of_nat ([1..<Suc (length (claimed s))] ! j)"
      using that unfolding m by (simp del: upt_Suc)
    also have "\<dots> = of_nat (Suc j)"
      using that by (simp del: upt_Suc)
    finally show ?thesis .
  qed
  have c1: "main_id s = of_nat (length (claimed s))"
    using inv by (simp add: ids_counted_def)
  have c2: "\<forall>j < length (claimed s).
        snd (claimed s ! j) = (if j = 0 then 1 else snd (claimed s ! (j - 1)) + 1)"
  proof (intro allI impI)
    fix j assume j: "j < length (claimed s)"
    show "snd (claimed s ! j) = (if j = 0 then 1 else snd (claimed s ! (j - 1)) + 1)"
    proof (cases j)
      case 0
      with j show ?thesis by (simp add: nth)
    next
      case (Suc i)
      with j have "i < length (claimed s)" by simp
      with Suc j show ?thesis by (simp add: nth)
    qed
  qed
  have c3: "length (claimed s) < 2 ^ 63 \<longrightarrow>
        map (\<lambda>c. sint (snd c)) (claimed s) = map int [1..<Suc (length (claimed s))]"
  proof
    assume b: "length (claimed s) < 2 ^ 63"
    have "map (\<lambda>c. sint (snd c)) (claimed s) = map sint (map snd (claimed s))"
      by simp
    also have "\<dots> = map (\<lambda>j. sint (of_nat j :: int64)) [1..<Suc (length (claimed s))]"
      unfolding m by (simp del: upt_Suc)
    also have "\<dots> = map int [1..<Suc (length (claimed s))]"
    proof (rule map_cong [OF refl])
      fix j assume "j \<in> set [1..<Suc (length (claimed s))]"
      then have "j < 2 ^ 63"
        using b by auto
      then show "sint (of_nat j :: int64) = int j"
        by (rule sint_of_nat_small)
    qed
    finally show "map (\<lambda>c. sint (snd c)) (claimed s) = map int [1..<Suc (length (claimed s))]" .
  qed
  from c1 c2 c3 show "main_id s = of_nat (length (claimed s)) \<and>
     (\<forall>j < length (claimed s).
        snd (claimed s ! j) = (if j = 0 then 1 else snd (claimed s ! (j - 1)) + 1)) \<and>
     (length (claimed s) < 2 ^ 63 \<longrightarrow>
        map (\<lambda>c. sint (snd c)) (claimed s) = map int [1..<Suc (length (claimed s))])"
    by blast
qed

text \<open>
  C1 as stated fails on the status after a failure: one lane, the command exits with
  status 1 at the first invocation, \<^verbatim>\<open>main\<close> reports the failure and returns, and the
  exit status is 0.
\<close>

theorem failure_exit_counterexample:
  "map_option exit_status
     (exec plain_platform one_lane [Check 0, Claim 0, Run 0 failing_child, Send 0, Cancel, Wait 5]
        (main_start plain_platform one_lane [] empty_world)) = Some (Some 0)
   \<and> map_option stderr
     (exec plain_platform one_lane [Check 0, Claim 0, Run 0 failing_child, Send 0, Cancel, Wait 5]
        (main_start plain_platform one_lane [] empty_world))
     = Some (''Failed after 0 successful iteration(s):'' @ nl @ ''Command failed: status 1:'' @ nl
             @ ''oops'' @ nl)"
  by code_simp

theorem exit_status_value_witness:
  "\<exists>s. exec plain_platform one_lane [Check 0, Claim 0, Run 0 failing_child, Send 0, Cancel, Wait 5]
        (main_start plain_platform one_lane [] empty_world) = Some s
       \<and> exit_status s = Some 0"
proof -
  have "map_option exit_status
     (exec plain_platform one_lane [Check 0, Claim 0, Run 0 failing_child, Send 0, Cancel, Wait 5]
        (main_start plain_platform one_lane [] empty_world)) = Some (Some 0)"
    by code_simp
  then obtain s where s: "exec plain_platform one_lane
        [Check 0, Claim 0, Run 0 failing_child, Send 0, Cancel, Wait 5]
        (main_start plain_platform one_lane [] empty_world) = Some s" "exit_status s = Some 0"
    by auto
  have "(0::nat) = 0"
    using exit_status_value [of plain_platform one_lane
        "[Check 0, Claim 0, Run 0 failing_child, Send 0, Cancel, Wait 5]" "[]" empty_world s 0] s
    by simp
  with s show ?thesis
    by blast
qed

theorem worker_loop_exits_witness:
  "step plain_platform one_lane (Check 0) ((spawned one_lane [] empty_world)\<lparr>main_ctx := True\<rparr>)
     = Some (set_at 0 Exited' ((spawned one_lane [] empty_world)\<lparr>main_ctx := True\<rparr>))
   \<and> at (lanes (set_at 0 Exited' ((spawned one_lane [] empty_world)\<lparr>main_ctx := True\<rparr>)) ! 0) = Exited'
   \<and> main_id (set_at 0 Exited' ((spawned one_lane [] empty_world)\<lparr>main_ctx := True\<rparr>)) = 0
   \<and> step plain_platform one_lane (Send 0)
        (set_at 0 (AtPublish (Some (OtherError ''no such file''))) (spawned one_lane [] empty_world))
      = Some (set_at 0 Exited' ((spawned one_lane [] empty_world)
                \<lparr>main_err := Some (OtherError ''no such file''), main_at := Broke\<rparr>))
   \<and> at (lanes (set_at 0 Exited' ((spawned one_lane [] empty_world)
                \<lparr>main_err := Some (OtherError ''no such file''), main_at := Broke\<rparr>)) ! 0) = Exited'
   \<and> step plain_platform one_lane (Claim 0)
        (set_at 0 Exited' ((spawned one_lane [] empty_world)\<lparr>main_ctx := True\<rparr>)) = None"
proof -
  have l: "lanes (spawned one_lane [] empty_world)
      = [\<lparr>wk = \<lparr>cmd = [''false''], tmpdir = [], outBuf = zero_Buffer\<rparr>, at = AtCheck\<rparr>]"
    by (simp add: spawned_def)
  have r: "running ((spawned one_lane [] empty_world)\<lparr>main_ctx := True\<rparr>)"
    "running (set_at 0 Exited' ((spawned one_lane [] empty_world)\<lparr>main_ctx := True\<rparr>))"
    "main_at (spawned one_lane [] empty_world) = InLoop"
    "main_id (spawned one_lane [] empty_world) = 0"
    by (simp_all add: running_def spawned_def)
  have a: "step plain_platform one_lane (Check 0) ((spawned one_lane [] empty_world)\<lparr>main_ctx := True\<rparr>)
     = Some (set_at 0 Exited' ((spawned one_lane [] empty_world)\<lparr>main_ctx := True\<rparr>))"
    by (simp add: l r)
  have b: "step plain_platform one_lane (Send 0)
        (set_at 0 (AtPublish (Some (OtherError ''no such file''))) (spawned one_lane [] empty_world))
      = Some (set_at 0 Exited' ((spawned one_lane [] empty_world)
                \<lparr>main_err := Some (OtherError ''no such file''), main_at := Broke\<rparr>))"
    by (simp add: l r set_at_def)
  note t1 = worker_loop_exits [of "(spawned one_lane [] empty_world)\<lparr>main_ctx := True\<rparr>" 0 "Check 0"
      plain_platform one_lane "set_at 0 Exited' ((spawned one_lane [] empty_world)\<lparr>main_ctx := True\<rparr>)"
      "OtherError []"]
  note t2 = worker_loop_exits [of
      "set_at 0 (AtPublish (Some (OtherError ''no such file''))) (spawned one_lane [] empty_world)"
      0 "Send 0" plain_platform one_lane
      "set_at 0 Exited' ((spawned one_lane [] empty_world)
                \<lparr>main_err := Some (OtherError ''no such file''), main_at := Broke\<rparr>)"
      "OtherError ''no such file''"]
  note t3 = worker_loop_exits [of
      "set_at 0 Exited' ((spawned one_lane [] empty_world)\<lparr>main_ctx := True\<rparr>)" 0 "Claim 0"
      plain_platform one_lane "spawned one_lane [] empty_world" "OtherError []"]
  have c1: "at (lanes (set_at 0 Exited' ((spawned one_lane [] empty_world)\<lparr>main_ctx := True\<rparr>)) ! 0) = Exited'
    \<and> main_id (set_at 0 Exited' ((spawned one_lane [] empty_world)\<lparr>main_ctx := True\<rparr>)) = 0"
    using t1 a by (simp add: l r)
  have c2: "at (lanes (set_at 0 Exited' ((spawned one_lane [] empty_world)
                \<lparr>main_err := Some (OtherError ''no such file''), main_at := Broke\<rparr>)) ! 0) = Exited'"
    using t2 b by (simp add: l r)
  have c3: "step plain_platform one_lane (Claim 0)
        (set_at 0 Exited' ((spawned one_lane [] empty_world)\<lparr>main_ctx := True\<rparr>)) = None"
    using t3 by (simp add: l r)
  from a b c1 c2 c3 show ?thesis
    by blast
qed

theorem publish_never_blocks_witness:
  "\<exists>s. exec plain_platform two_lanes
          [Check 0, Check 1, Claim 0, Claim 1, Run 0 failing_child, Run 1 failing_child, Send 0, Cancel]
          (main_start plain_platform two_lanes [] empty_world) = Some s
       \<and> main_ctx s \<and> main_at s = Waiting
       \<and> step plain_platform two_lanes (Abandon 1) s = Some (set_at 1 Exited' s)
       \<and> step plain_platform two_lanes (Send 1) s = None"
proof -
  let ?E = "exec plain_platform two_lanes
          [Check 0, Check 1, Claim 0, Claim 1, Run 0 failing_child, Run 1 failing_child, Send 0, Cancel]
          (main_start plain_platform two_lanes [] empty_world)"
  have f: "map_option (\<lambda>s. (main_ctx s, main_at s, length (lanes s),
              case at (lanes s ! 1) of AtPublish e \<Rightarrow> True | _ \<Rightarrow> False)) ?E
           = Some (True, Waiting, 2, True)"
    by code_simp
  then obtain s where s: "?E = Some s" "main_ctx s" "main_at s = Waiting" "length (lanes s) = 2"
      "case at (lanes s ! 1) of AtPublish e \<Rightarrow> True | _ \<Rightarrow> False"
    by auto
  then obtain e where e: "at (lanes s ! 1) = AtPublish e"
    by (auto split: pc.splits)
  have r: "running s"
    using s by (simp add: running_def)
  have "step plain_platform two_lanes (Abandon 1) s = Some (set_at 1 Exited' s)
      \<and> step plain_platform two_lanes (Send 1) s = None"
    using publish_never_blocks [of plain_platform two_lanes
        "[Check 0, Check 1, Claim 0, Claim 1, Run 0 failing_child, Run 1 failing_child, Send 0, Cancel]"
        "[]" empty_world s 1 e] s e r
    by simp
  with s show ?thesis
    by blast
qed

theorem ids_contiguous_witness:
  "\<exists>s. exec plain_platform two_lanes [Check 0, Check 1, Claim 1, Claim 0]
          (main_start plain_platform two_lanes [] empty_world) = Some s
       \<and> main_id s = 2 \<and> map (\<lambda>c. sint (snd c)) (claimed s) = [1, 2]"
proof -
  let ?E = "exec plain_platform two_lanes [Check 0, Check 1, Claim 1, Claim 0]
          (main_start plain_platform two_lanes [] empty_world)"
  have "map_option (\<lambda>s. length (claimed s)) ?E = Some 2"
    by code_simp
  then obtain s where s: "?E = Some s" "length (claimed s) = 2"
    by auto
  have u: "map int [1..<Suc 2] = [1, 2]"
    by (simp add: upt_rec)
  note t = ids_contiguous [of plain_platform two_lanes "[Check 0, Check 1, Claim 1, Claim 0]"
        "[]" empty_world s, THEN mp, OF s(1)]
  have "main_id s = 2 \<and> map (\<lambda>c. sint (snd c)) (claimed s) = [1, 2]"
    using t u unfolding s(2) by simp
  then have "?E = Some s \<and> main_id s = 2 \<and> map (\<lambda>c. sint (snd c)) (claimed s) = [1, 2]"
    using s(1) by (simp only: simp_thms)
  then show ?thesis
    by (rule exI)
qed

end
